theory Spec2Isabelle
  imports Main "HOL-Library.Sublist"
begin

section \<open>Characters and the regular expressions of the usage tracker\<close>

text \<open>
  A JavaScript string is a sequence of code units; the model reads a \<^typ>\<open>char\<close> as a code
  unit below 256, which covers every character class the tracker's regular expressions
  mention. \<open>\w\<close> is \<open>[A-Za-z0-9_]\<close>, \<open>\s\<close> is the ECMAScript white space and line
  terminators (below 256: tab, line feed, vertical tab, form feed, carriage return, space,
  no-break space), and \<open>\b\<close> holds between a word character and a non-word character or a
  string end.
\<close>

definition isUpper :: "char \<Rightarrow> bool" where
  "isUpper c = (let n = (of_char c :: nat) in 65 \<le> n \<and> n \<le> 90)"

definition isLower :: "char \<Rightarrow> bool" where
  "isLower c = (let n = (of_char c :: nat) in 97 \<le> n \<and> n \<le> 122)"

definition isDigit :: "char \<Rightarrow> bool" where
  "isDigit c = (let n = (of_char c :: nat) in 48 \<le> n \<and> n \<le> 57)"

definition isIdentStart :: "char \<Rightarrow> bool" where
  "isIdentStart c = (isUpper c \<or> isLower c \<or> c = CHR ''_'')"

definition isWordChar :: "char \<Rightarrow> bool" where
  "isWordChar c = (isIdentStart c \<or> isDigit c)"

definition isSpace :: "char \<Rightarrow> bool" where
  "isSpace c = (let n = (of_char c :: nat) in (9 \<le> n \<and> n \<le> 13) \<or> n = 32 \<or> n = 160)"

definition isQuote :: "char \<Rightarrow> bool" where
  "isQuote c = (c = CHR 0x22 \<or> c = CHR 0x27 \<or> c = CHR 0x60)"

text \<open>\<open>String.prototype.trim\<close>: white space is removed at both ends.\<close>

definition trim :: "string \<Rightarrow> string" where
  "trim s = rev (dropWhile isSpace (rev (dropWhile isSpace s)))"

text \<open>\<open>Array.prototype.join\<close>.\<close>

fun join :: "string \<Rightarrow> string list \<Rightarrow> string" where
  "join sep [] = []"
| "join sep [x] = x"
| "join sep (x # y # ys) = x @ sep @ join sep (y # ys)"

text \<open>
  The loop \<open>while ((match = regex.exec(code)) !== null)\<close> over a global regular expression:
  the expression is tried at every position from left to right, a match contributes its
  capture group and the search resumes behind the match. A matcher receives the code unit
  before the position (for \<open>\b\<close>) and the rest of the text, and returns the capture and the
  length of the whole match, which is at least one for every expression of the tracker.
\<close>

type_synonym matcher = "char option \<Rightarrow> string \<Rightarrow> (string \<times> nat) option"

fun execAll :: "matcher \<Rightarrow> char option \<Rightarrow> nat \<Rightarrow> string \<Rightarrow> string list" where
  "execAll m prev k [] = []"
| "execAll m prev (Suc k) (c # cs) = execAll m (Some c) k cs"
| "execAll m prev 0 (c # cs) =
     (case m prev (c # cs) of
        Some (cap, len) \<Rightarrow> cap # execAll m (Some c) (len - 1) cs
      | None \<Rightarrow> execAll m (Some c) 0 cs)"

definition atWordStart :: "char option \<Rightarrow> bool" where
  "atWordStart prev = (case prev of None \<Rightarrow> True | Some p \<Rightarrow> \<not> isWordChar p)"

text \<open>\<open>/\b([A-Z][a-zA-Z0-9_]*)\b/g\<close>: the greedy group takes the whole run of word characters,
  so the closing \<open>\b\<close> always holds.\<close>

definition typeReferenceRegex :: matcher where
  "typeReferenceRegex prev s =
     (case s of
        [] \<Rightarrow> None
      | c # cs \<Rightarrow>
          if atWordStart prev \<and> isUpper c
          then (let w = c # takeWhile isWordChar cs in Some (w, length w))
          else None)"

text \<open>\<open>/\b([a-zA-Z_][a-zA-Z0-9_]*)\b/g\<close>.\<close>

definition identifierRegex :: matcher where
  "identifierRegex prev s =
     (case s of
        [] \<Rightarrow> None
      | c # cs \<Rightarrow>
          if atWordStart prev \<and> isIdentStart c
          then (let w = c # takeWhile isWordChar cs in Some (w, length w))
          else None)"

text \<open>\<open>/\b([a-zA-Z_][a-zA-Z0-9_]*)\s*\(/g\<close>: after the greedy identifier and the greedy
  white space the next code unit must be the parenthesis; giving back a character of either
  never helps, since the character given back is neither white space nor a parenthesis.\<close>

definition functionCallRegex :: matcher where
  "functionCallRegex prev s =
     (case s of
        [] \<Rightarrow> None
      | c # cs \<Rightarrow>
          if atWordStart prev \<and> isIdentStart c
          then (let w = c # takeWhile isWordChar cs;
                    rest = dropWhile isWordChar cs;
                    sp = takeWhile isSpace rest
                in case dropWhile isSpace rest of
                     [] \<Rightarrow> None
                   | d # _ \<Rightarrow> if d = CHR ''('' then Some (w, length w + length sp + 1) else None)
          else None)"

text \<open>An identifier \<open>([A-Za-z_][A-Za-z0-9_]*)\<close> at the start of a text.\<close>

definition identAt :: "string \<Rightarrow> string option" where
  "identAt s =
     (case s of
        [] \<Rightarrow> None
      | c # cs \<Rightarrow> if isIdentStart c then Some (c # takeWhile isWordChar cs) else None)"

text \<open>\<open>/:\s*([A-Za-z_][A-Za-z0-9_]*)/g\<close>, the type annotation pattern.\<close>

definition annotationRegex :: matcher where
  "annotationRegex prev s =
     (case s of
        [] \<Rightarrow> None
      | c # cs \<Rightarrow>
          if c = CHR '':''
          then (let sp = takeWhile isSpace cs
                in case identAt (dropWhile isSpace cs) of
                     None \<Rightarrow> None
                   | Some w \<Rightarrow> Some (w, 1 + length sp + length w))
          else None)"

text \<open>\<open>/kw\s+([A-Za-z_][A-Za-z0-9_]*)/g\<close> for a keyword \<open>kw\<close>: \<open>extends\<close>, \<open>implements\<close>,
  \<open>typeof\<close>, \<open>keyof\<close>. There is no \<open>\b\<close> in these patterns.\<close>

definition keywordRegex :: "string \<Rightarrow> matcher" where
  "keywordRegex kw prev s =
     (if take (length kw) s = kw \<and> kw \<noteq> []
      then (let rest = drop (length kw) s;
                sp = takeWhile isSpace rest
            in if sp = [] then None
               else case identAt (dropWhile isSpace rest) of
                      None \<Rightarrow> None
                    | Some w \<Rightarrow> Some (w, length kw + length sp + length w))
      else None)"

definition patterns :: "matcher list" where
  "patterns = [annotationRegex, keywordRegex ''extends'', keywordRegex ''implements'',
               keywordRegex ''typeof'', keywordRegex ''keyof'']"

text \<open>\<open>/["'`]([^"'`]*?)["'`]/g\<close>: a match runs from a quote character to the next quote
  character of any of the three kinds; the capture is the text between them, and the search
  resumes behind the closing quote. \<open>stringLiteralRegex inside acc s\<close> lists the captures;
  \<open>acc\<close> is the reversed content read since the opening quote.\<close>

fun stringLiteralRegex :: "bool \<Rightarrow> string \<Rightarrow> string \<Rightarrow> string list" where
  "stringLiteralRegex inside acc [] = []"
| "stringLiteralRegex False acc (c # cs) =
     (if isQuote c then stringLiteralRegex True [] cs else stringLiteralRegex False acc cs)"
| "stringLiteralRegex True acc (c # cs) =
     (if isQuote c then rev acc # stringLiteralRegex False [] cs
      else stringLiteralRegex True (c # acc) cs)"

section \<open>The usage tracker\<close>

record TypeUsageTracker =
  usedIdentifiers :: "string set"

definition newTypeUsageTracker :: TypeUsageTracker where
  "newTypeUsageTracker = \<lparr>usedIdentifiers = {}\<rparr>"

definition stoplist :: "string list" where
  "stoplist = [''const'', ''let'', ''var'', ''function'', ''return'', ''if'', ''else'', ''for'',
               ''while'', ''do'', ''switch'', ''case'', ''break'', ''continue'', ''true'',
               ''false'', ''null'', ''undefined'']"

text \<open>The identifiers \<open>scanStringContent\<close> adds for the content of one string literal: the
  callees of the function-call pattern, then every identifier that is not in the stoplist.\<close>

definition scanStringContentFound :: "string \<Rightarrow> string list" where
  "scanStringContentFound content =
     execAll functionCallRegex None 0 content
     @ filter (\<lambda>keyword. keyword \<notin> set stoplist) (execAll identifierRegex None 0 content)"

definition scanStringContent :: "string \<Rightarrow> TypeUsageTracker \<Rightarrow> TypeUsageTracker" where
  "scanStringContent content t =
     t\<lparr>usedIdentifiers := usedIdentifiers t \<union> set (scanStringContentFound content)\<rparr>"

text \<open>The identifiers \<open>scanString\<close> adds: those of every non-empty string literal content,
  the capitalised words, and the captures of the five patterns, all over the original text.\<close>

definition scanStringFound :: "string \<Rightarrow> string list" where
  "scanStringFound code =
     concat (map scanStringContentFound
               (filter (\<lambda>stringContent. stringContent \<noteq> []) (stringLiteralRegex False [] code)))
     @ execAll typeReferenceRegex None 0 code
     @ concat (map (\<lambda>pattern. execAll pattern None 0 code) patterns)"

definition scanString :: "string \<Rightarrow> TypeUsageTracker \<Rightarrow> TypeUsageTracker" where
  "scanString code t = t\<lparr>usedIdentifiers := usedIdentifiers t \<union> set (scanStringFound code)\<rparr>"

definition isUsed :: "TypeUsageTracker \<Rightarrow> string \<Rightarrow> bool" where
  "isUsed t identifier = (identifier \<in> usedIdentifiers t)"

section \<open>The imports builder\<close>

record NamedImportDefinition =
  name :: string
  aliasName :: "string option"
  used :: bool

text \<open>The default and the namespace import are objects \<open>{ name, used }\<close> or \<open>null\<close>.\<close>

record SingleImport =
  bname :: string
  bused :: bool

record ImportsBuilder =
  moduleSpecifier :: string
  namedImports :: "NamedImportDefinition list"
  defaultImport :: "SingleImport option"
  namespaceImport :: "SingleImport option"
  includeUnused :: bool
  typeOnly :: bool

definition newImportsBuilder :: "string \<Rightarrow> bool \<Rightarrow> bool \<Rightarrow> ImportsBuilder" where
  "newImportsBuilder m incl ty =
     \<lparr>moduleSpecifier = m, namedImports = [], defaultImport = None, namespaceImport = None,
      includeUnused = incl, typeOnly = ty\<rparr>"

definition "named" :: "string \<Rightarrow> string option \<Rightarrow> ImportsBuilder \<Rightarrow> ImportsBuilder" where
  "named n a b =
     (case find (\<lambda>imp. name imp = n \<and> aliasName imp = a) (namedImports b) of
        Some existingImport \<Rightarrow> b
      | None \<Rightarrow> b\<lparr>namedImports := namedImports b @ [\<lparr>name = n, aliasName = a, used = False\<rparr>]\<rparr>)"

definition namedMultiple :: "string list \<Rightarrow> ImportsBuilder \<Rightarrow> ImportsBuilder" where
  "namedMultiple names b = fold (\<lambda>n. named n None) names b"

definition default_import :: "string \<Rightarrow> ImportsBuilder \<Rightarrow> ImportsBuilder" where
  "default_import n b = b\<lparr>defaultImport := Some \<lparr>bname = n, bused = False\<rparr>\<rparr>"

definition namespace :: "string \<Rightarrow> ImportsBuilder \<Rightarrow> ImportsBuilder" where
  "namespace n b = b\<lparr>namespaceImport := Some \<lparr>bname = n, bused = False\<rparr>\<rparr>"

text \<open>\<open>markUsed\<close> sets the flag of the object \<open>find\<close> returns: the first named import with
  that source name.\<close>

fun markFirst :: "string \<Rightarrow> NamedImportDefinition list \<Rightarrow> NamedImportDefinition list" where
  "markFirst n [] = []"
| "markFirst n (imp # imps) =
     (if name imp = n then imp\<lparr>used := True\<rparr> # imps else imp # markFirst n imps)"

definition markUsed :: "string \<Rightarrow> ImportsBuilder \<Rightarrow> ImportsBuilder" where
  "markUsed n b = b\<lparr>namedImports := markFirst n (namedImports b)\<rparr>"

definition markDefaultUsed :: "ImportsBuilder \<Rightarrow> ImportsBuilder" where
  "markDefaultUsed b =
     (case defaultImport b of
        None \<Rightarrow> b
      | Some d \<Rightarrow> b\<lparr>defaultImport := Some (d\<lparr>bused := True\<rparr>)\<rparr>)"

definition markNamespaceUsed :: "ImportsBuilder \<Rightarrow> ImportsBuilder" where
  "markNamespaceUsed b =
     (case namespaceImport b of
        None \<Rightarrow> b
      | Some d \<Rightarrow> b\<lparr>namespaceImport := Some (d\<lparr>bused := True\<rparr>)\<rparr>)"

definition markSingleFromTracker :: "TypeUsageTracker \<Rightarrow> SingleImport option \<Rightarrow> SingleImport option" where
  "markSingleFromTracker usageTracker imp =
     (case imp of
        None \<Rightarrow> None
      | Some d \<Rightarrow> if isUsed usageTracker (bname d) then Some (d\<lparr>bused := True\<rparr>) else Some d)"

definition markUsedFromTracker :: "TypeUsageTracker \<Rightarrow> ImportsBuilder \<Rightarrow> ImportsBuilder" where
  "markUsedFromTracker usageTracker b =
     b\<lparr>namedImports :=
         map (\<lambda>namedImport.
                if isUsed usageTracker (name namedImport) then namedImport\<lparr>used := True\<rparr>
                else namedImport)
             (namedImports b),
       defaultImport := markSingleFromTracker usageTracker (defaultImport b),
       namespaceImport := markSingleFromTracker usageTracker (namespaceImport b)\<rparr>"

subsection \<open>The import declaration the builder creates\<close>

record ImportSpecifier =
  propertyName :: "string option"
  localName :: string

datatype NamedImportBindings = NamespaceImport string | NamedImports "ImportSpecifier list"

record ImportClause =
  isTypeOnly :: bool
  clauseName :: "string option"
  namedBindings :: "NamedImportBindings option"

datatype ImportDeclaration = ImportDeclaration "ImportClause option" string

text \<open>JavaScript truthiness of \<open>string | undefined\<close>: the empty string counts as absent.\<close>

definition truthy :: "string option \<Rightarrow> bool" where
  "truthy s = (case s of None \<Rightarrow> False | Some t \<Rightarrow> t \<noteq> [])"

definition createImportSpecifier :: "NamedImportDefinition \<Rightarrow> ImportSpecifier" where
  "createImportSpecifier imp =
     \<lparr>propertyName = (if truthy (aliasName imp) then Some (name imp) else None),
      localName = (if truthy (aliasName imp) then the (aliasName imp) else name imp)\<rparr>"

definition createImportClause ::
  "bool \<Rightarrow> string option \<Rightarrow> string option \<Rightarrow> NamedImportDefinition list \<Rightarrow> ImportClause option" where
  "createImportClause ty defaultImportName namespaceImportName imps =
     (let nm = (if truthy defaultImportName then defaultImportName else None);
          bindings =
            (if truthy namespaceImportName then Some (NamespaceImport (the namespaceImportName))
             else if imps \<noteq> [] then Some (NamedImports (map createImportSpecifier imps))
             else None)
      in if nm = None \<and> bindings = None then None
         else Some \<lparr>isTypeOnly = ty, clauseName = nm, namedBindings = bindings\<rparr>)"

definition filteredNamedImports :: "ImportsBuilder \<Rightarrow> NamedImportDefinition list" where
  "filteredNamedImports b =
     (if includeUnused b then namedImports b else filter used (namedImports b))"

definition includeSingle :: "ImportsBuilder \<Rightarrow> SingleImport option \<Rightarrow> bool" where
  "includeSingle b imp = (case imp of None \<Rightarrow> False | Some d \<Rightarrow> includeUnused b \<or> bused d)"

text \<open>\<open>generate\<close> up to the call of the printer: \<open>None\<close> is the early return of the empty
  string, otherwise the declaration handed to \<open>printNode\<close>.\<close>

definition generateDeclaration :: "ImportsBuilder \<Rightarrow> ImportDeclaration option" where
  "generateDeclaration b =
     (let includeDefault = includeSingle b (defaultImport b);
          includeNamespace = includeSingle b (namespaceImport b)
      in if filteredNamedImports b = [] \<and> \<not> includeDefault \<and> \<not> includeNamespace then None
         else
           (case createImportClause (typeOnly b)
                   (if includeDefault then map_option bname (defaultImport b) else None)
                   (if includeNamespace then map_option bname (namespaceImport b) else None)
                   (filteredNamedImports b) of
              None \<Rightarrow> Some (ImportDeclaration None (moduleSpecifier b))
            | Some importClause \<Rightarrow>
                Some (ImportDeclaration
                        (Some \<lparr>isTypeOnly = typeOnly b, clauseName = clauseName importClause,
                               namedBindings = namedBindings importClause\<rparr>)
                        (moduleSpecifier b))))"

subsection \<open>The printer, for import declarations\<close>

text \<open>
  The text the TypeScript printer gives for an import declaration, in the layout the
  project's documentation shows (\<open>import styled, { css } from "styled-components";\<close>): the
  optional \<open>type\<close> modifier, the default name, a comma when both parts are present, the
  namespace or the braces with the specifiers in list order, and the module in double
  quotes. The printer is the TypeScript library's; its escaping of special characters in the
  module name is not modelled.
\<close>

definition printImportSpecifier :: "ImportSpecifier \<Rightarrow> string" where
  "printImportSpecifier sp =
     (case propertyName sp of
        None \<Rightarrow> localName sp
      | Some p \<Rightarrow> p @ '' as '' @ localName sp)"

definition printNamedBindings :: "NamedImportBindings \<Rightarrow> string" where
  "printNamedBindings nb =
     (case nb of
        NamespaceImport n \<Rightarrow> ''* as '' @ n
      | NamedImports elements \<Rightarrow>
          (if elements = [] then ''{}''
           else ''{ '' @ join '', '' (map printImportSpecifier elements) @ '' }''))"

definition printImportClause :: "ImportClause \<Rightarrow> string" where
  "printImportClause c =
     (if isTypeOnly c then ''type '' else [])
     @ (case clauseName c of None \<Rightarrow> [] | Some n \<Rightarrow> n)
     @ (if clauseName c \<noteq> None \<and> namedBindings c \<noteq> None then '', '' else [])
     @ (case namedBindings c of None \<Rightarrow> [] | Some nb \<Rightarrow> printNamedBindings nb)"

definition stringLiteral :: "string \<Rightarrow> string" where
  "stringLiteral m = [CHR 0x22] @ m @ [CHR 0x22]"

definition printImportDeclaration :: "ImportDeclaration \<Rightarrow> string" where
  "printImportDeclaration d =
     (case d of
        ImportDeclaration None m \<Rightarrow> ''import '' @ stringLiteral m @ '';''
      | ImportDeclaration (Some c) m \<Rightarrow>
          ''import '' @ printImportClause c @ '' from '' @ stringLiteral m @ '';'')"

definition generateImports :: "ImportsBuilder \<Rightarrow> string" where
  "generateImports b =
     (case generateDeclaration b of None \<Rightarrow> [] | Some d \<Rightarrow> printImportDeclaration d)"

section \<open>Structured nodes and the printer\<close>

text \<open>
  A structured node is held by what the TypeScript printer gives for it: its text when the
  printer drops comments (\<open>removeComments: true\<close>), its text when the printer keeps them, and
  the synthetic leading comments attached to the node itself, which the printer writes, each
  on a line of its own, in front of the node when it keeps comments.
  \<open>ts.addSyntheticLeadingComment\<close> appends to that list of the node it is given.
\<close>

datatype CommentKind = SingleLineCommentTrivia | MultiLineCommentTrivia

record SynthesizedComment =
  commentKind :: CommentKind
  commentText :: string

record TsNode =
  plainText :: string
  commentedText :: string
  leadingComments :: "SynthesizedComment list"

definition newline :: string where
  "newline = [CHR 0x0A]"

definition addSyntheticLeadingComment :: "TsNode \<Rightarrow> CommentKind \<Rightarrow> string \<Rightarrow> TsNode" where
  "addSyntheticLeadingComment n k t =
     n\<lparr>leadingComments := leadingComments n @ [\<lparr>commentKind = k, commentText = t\<rparr>]\<rparr>"

definition formatSynthesizedComment :: "SynthesizedComment \<Rightarrow> string" where
  "formatSynthesizedComment c =
     (case commentKind c of
        MultiLineCommentTrivia \<Rightarrow> ''/*'' @ commentText c @ ''*/''
      | SingleLineCommentTrivia \<Rightarrow> ''//'' @ commentText c)
     @ newline"

definition printNode :: "TsNode \<Rightarrow> string" where
  "printNode n = concat (map formatSynthesizedComment (leadingComments n)) @ commentedText n"

definition printNodes :: "TsNode list \<Rightarrow> string" where
  "printNodes nodes = join (newline @ newline) (map printNode nodes)"

section \<open>Sections\<close>

datatype CodeItemType =
  Interface | Type | Enum | Object | Import | If | Switch | For | While | DoWhile

datatype Node = StringNode string | AstNode TsNode

record CodeItem =
  item_type :: CodeItemType
  item_name :: string
  node :: Node
  importsBuilder :: "ImportsBuilder option"

text \<open>\<open>string | string[] | undefined\<close>, the type of a description and of JSDoc comments.\<close>

datatype Description = NoDescription | Line string | Lines "string list"

text \<open>The options \<open>generate\<close> reads. A metadata value is held as the text the template string
  gives for it; \<open>None\<close> is \<open>undefined\<close>.\<close>

record SectionOptions =
  description :: Description
  metadata :: "(string \<times> string option) list option"
  sortItems :: bool
  order :: "int option"

record Section =
  section_name :: string
  options :: SectionOptions
  items :: "CodeItem list"

text \<open>
  \<open>[...xs].sort(cmp)\<close>: the sort is stable, and for a comparator that orders consistently
  the result of a stable sort is the one insertion gives. \<open>localeCompare\<close> depends on the
  locale of the host and is a parameter of the model.
\<close>

fun insertBy :: "('a \<Rightarrow> 'a \<Rightarrow> int) \<Rightarrow> 'a \<Rightarrow> 'a list \<Rightarrow> 'a list" where
  "insertBy cmp x [] = [x]"
| "insertBy cmp x (y # ys) = (if cmp x y \<le> 0 then x # y # ys else y # insertBy cmp x ys)"

definition sortBy :: "('a \<Rightarrow> 'a \<Rightarrow> int) \<Rightarrow> 'a list \<Rightarrow> 'a list" where
  "sortBy cmp xs = foldr (insertBy cmp) xs []"

definition generatedCodeOf :: "CodeItem \<Rightarrow> string" where
  "generatedCodeOf item = (case node item of StringNode s \<Rightarrow> s | AstNode n \<Rightarrow> plainText n)"

text \<open>The items are objects, and \<open>generate\<close> changes some of them in place. An entry pairs an
  item with its index in \<open>this.items\<close>, which stands for the identity of the object.\<close>

definition nonImportItems :: "Section \<Rightarrow> (nat \<times> CodeItem) list" where
  "nonImportItems sec = filter (\<lambda>(i, item). item_type item \<noteq> Import) (enumerate 0 (items sec))"

definition sortedNonImportItems ::
  "(string \<Rightarrow> string \<Rightarrow> int) \<Rightarrow> Section \<Rightarrow> (nat \<times> CodeItem) list" where
  "sortedNonImportItems localeCompare sec =
     (if sortItems (options sec)
      then sortBy (\<lambda>a b. localeCompare (item_name (snd a)) (item_name (snd b))) (nonImportItems sec)
      else nonImportItems sec)"

text \<open>The scan phase: a new tracker, fed with the text of every non-import item.\<close>

definition scanItems :: "(nat \<times> CodeItem) list \<Rightarrow> TypeUsageTracker" where
  "scanItems entries =
     fold (\<lambda>(i, item) usageTracker. scanString (generatedCodeOf item) usageTracker)
          entries newTypeUsageTracker"

definition Section_usageTracker :: "(string \<Rightarrow> string \<Rightarrow> int) \<Rightarrow> Section \<Rightarrow> TypeUsageTracker" where
  "Section_usageTracker localeCompare sec = scanItems (sortedNonImportItems localeCompare sec)"

text \<open>The import phase, for one import item.\<close>

definition processImportItem :: "TypeUsageTracker \<Rightarrow> CodeItem \<Rightarrow> CodeItem" where
  "processImportItem usageTracker item =
     (case importsBuilder item of
        None \<Rightarrow> item
      | Some b \<Rightarrow>
          (let b' = markUsedFromTracker usageTracker b;
               generatedCode = generateImports b'
           in item\<lparr>node := StringNode (if trim generatedCode \<noteq> [] then generatedCode else []),
                   importsBuilder := Some b'\<rparr>))"

definition keptImport :: "CodeItem \<Rightarrow> bool" where
  "keptImport item = (case node item of StringNode s \<Rightarrow> trim s \<noteq> [] | AstNode n \<Rightarrow> False)"

definition importStringsOf :: "TypeUsageTracker \<Rightarrow> CodeItem list \<Rightarrow> string list" where
  "importStringsOf usageTracker its =
     concat (map (\<lambda>item. case node item of StringNode s \<Rightarrow> [s] | AstNode n \<Rightarrow> [])
               (filter keptImport
                  (map (processImportItem usageTracker)
                     (filter (\<lambda>item. item_type item = Import) its))))"

definition Section_importStrings :: "(string \<Rightarrow> string \<Rightarrow> int) \<Rightarrow> Section \<Rightarrow> string list" where
  "Section_importStrings localeCompare sec =
     importStringsOf (Section_usageTracker localeCompare sec) (items sec)"

definition stringNodesOf :: "(nat \<times> CodeItem) list \<Rightarrow> string list" where
  "stringNodesOf entries =
     concat (map (\<lambda>(i, item). case node item of StringNode s \<Rightarrow> [s] | AstNode n \<Rightarrow> []) entries)"

definition astNodesOf :: "(nat \<times> CodeItem) list \<Rightarrow> (nat \<times> TsNode) list" where
  "astNodesOf entries =
     concat (map (\<lambda>(i, item). case node item of StringNode s \<Rightarrow> [] | AstNode n \<Rightarrow> [(i, n)]) entries)"

definition descriptionLines :: "Description \<Rightarrow> string list" where
  "descriptionLines d =
     (case d of NoDescription \<Rightarrow> [] | Line l \<Rightarrow> (if l = [] then [] else [l]) | Lines ls \<Rightarrow> ls)"

definition descriptionTruthy :: "Description \<Rightarrow> bool" where
  "descriptionTruthy d = (case d of NoDescription \<Rightarrow> False | Line l \<Rightarrow> l \<noteq> [] | Lines ls \<Rightarrow> True)"

definition metadataLines :: "(string \<times> string option) list \<Rightarrow> string list" where
  "metadataLines md =
     concat (map (\<lambda>(key, v). case v of None \<Rightarrow> [] | Some val \<Rightarrow> ['' * @'' @ key @ '' '' @ val @ newline]) md)"

text \<open>The first branch of \<open>generate\<close>: no structured node, and some text to show.\<close>

definition renderStrings :: "string \<Rightarrow> SectionOptions \<Rightarrow> string list \<Rightarrow> string list \<Rightarrow> string" where
  "renderStrings nm opts importStrings stringNodes =
     ''/**'' @ newline @ '' * '' @ nm @ newline
     @ concat (map (\<lambda>l. '' * '' @ l @ newline) (descriptionLines (description opts)))
     @ (case metadata opts of
          None \<Rightarrow> []
        | Some md \<Rightarrow>
            (if descriptionTruthy (description opts) then '' *'' @ newline else [])
            @ concat (metadataLines md))
     @ '' */'' @ newline
     @ (if importStrings \<noteq> []
        then join newline importStrings @ (if stringNodes \<noteq> [] then newline @ newline else [])
        else [])
     @ (if stringNodes \<noteq> [] then join (newline @ newline) stringNodes else [])
     @ newline @ ''// End '' @ nm"

text \<open>The second branch: the end marker is a new node that is not emitted and carries a
  line comment; the section comment goes to the first node of the list, which is the first
  structured item when there is one. \<open>createJSDocComment(...).comment\<close> is the name and the
  description lines joined by line feeds; the metadata becomes tags, which \<open>comment\<close> does not
  hold.\<close>

definition endComment :: "string \<Rightarrow> TsNode" where
  "endComment nm =
     addSyntheticLeadingComment \<lparr>plainText = [], commentedText = [], leadingComments = []\<rparr>
       SingleLineCommentTrivia ('' End '' @ nm)"

definition sectionCommentText :: "string \<Rightarrow> SectionOptions \<Rightarrow> string" where
  "sectionCommentText nm opts =
     ''* '' @ join newline (nm # descriptionLines (description opts)) @ '' ''"

definition withSectionComment :: "string \<Rightarrow> SectionOptions \<Rightarrow> TsNode list \<Rightarrow> TsNode list" where
  "withSectionComment nm opts astNodes =
     (case astNodes of
        [] \<Rightarrow> []
      | n # ns \<Rightarrow>
          addSyntheticLeadingComment n MultiLineCommentTrivia (sectionCommentText nm opts) # ns)"

definition appendPart :: "string \<Rightarrow> string \<Rightarrow> string" where
  "appendPart result part =
     (if part = [] then result
      else (if result \<noteq> [] then result @ newline @ newline else result) @ part)"

definition renderMixed ::
  "string \<Rightarrow> SectionOptions \<Rightarrow> string list \<Rightarrow> string list \<Rightarrow> TsNode list \<Rightarrow> string" where
  "renderMixed nm opts importStrings stringNodes astNodes =
     (let astCode = printNodes (withSectionComment nm opts (astNodes @ [endComment nm]));
          result0 = (if importStrings \<noteq> [] then join newline importStrings else []);
          result1 = (if stringNodes \<noteq> []
                     then (if result0 \<noteq> [] then result0 @ newline @ newline else result0)
                          @ join (newline @ newline) stringNodes
                     else result0)
      in appendPart result1 astCode)"

definition onlyStrings :: "string list \<Rightarrow> string list \<Rightarrow> (nat \<times> TsNode) list \<Rightarrow> bool" where
  "onlyStrings importStrings stringNodes astNodes =
     (astNodes = [] \<and> (stringNodes \<noteq> [] \<or> importStrings \<noteq> []))"

definition Section_output :: "(string \<Rightarrow> string \<Rightarrow> int) \<Rightarrow> Section \<Rightarrow> string" where
  "Section_output localeCompare sec =
     (let sorted = sortedNonImportItems localeCompare sec;
          importStrings = Section_importStrings localeCompare sec;
          stringNodes = stringNodesOf sorted;
          astNodes = astNodesOf sorted
      in if onlyStrings importStrings stringNodes astNodes
         then renderStrings (section_name sec) (options sec) importStrings stringNodes
         else renderMixed (section_name sec) (options sec) importStrings stringNodes
                (map snd astNodes))"

text \<open>The items after \<open>generate\<close>: every import item is the processed one, and in the second
  branch the first structured item carries one more leading comment.\<close>

definition Section_itemsAfter :: "(string \<Rightarrow> string \<Rightarrow> int) \<Rightarrow> Section \<Rightarrow> CodeItem list" where
  "Section_itemsAfter localeCompare sec =
     (let sorted = sortedNonImportItems localeCompare sec;
          usageTracker = Section_usageTracker localeCompare sec;
          astNodes = astNodesOf sorted;
          commented =
            (if onlyStrings (Section_importStrings localeCompare sec) (stringNodesOf sorted) astNodes
             then None
             else (case astNodes of [] \<Rightarrow> None | (i, n) # ns \<Rightarrow> Some i))
      in map (\<lambda>(i, item).
                if item_type item = Import then processImportItem usageTracker item
                else if commented = Some i
                then (case node item of
                        StringNode s \<Rightarrow> item
                      | AstNode n \<Rightarrow>
                          item\<lparr>node := AstNode (addSyntheticLeadingComment n MultiLineCommentTrivia
                                                   (sectionCommentText (section_name sec) (options sec)))\<rparr>)
                else item)
             (enumerate 0 (items sec)))"

definition Section_generate :: "(string \<Rightarrow> string \<Rightarrow> int) \<Rightarrow> Section \<Rightarrow> string \<times> Section" where
  "Section_generate localeCompare sec =
     (Section_output localeCompare sec, sec\<lparr>items := Section_itemsAfter localeCompare sec\<rparr>)"

section \<open>The generator\<close>

record Generator =
  sections :: "Section list"
  globalMetadata :: "(string \<times> string option) list"

text \<open>\<open>Number.MAX_SAFE_INTEGER\<close>, the order of a section that has none.\<close>

definition orderKey :: "Section \<Rightarrow> int" where
  "orderKey sec = (case order (options sec) of None \<Rightarrow> 9007199254740991 | Some n \<Rightarrow> n)"

definition sortedSections :: "Generator \<Rightarrow> Section list" where
  "sortedSections g = sort_key orderKey (sections g)"

definition sectionCodes :: "(string \<Rightarrow> string \<Rightarrow> int) \<Rightarrow> Generator \<Rightarrow> string list" where
  "sectionCodes localeCompare g =
     map (\<lambda>sec. fst (Section_generate localeCompare sec)) (sortedSections g)"

definition combinedCode :: "(string \<Rightarrow> string \<Rightarrow> int) \<Rightarrow> Generator \<Rightarrow> string" where
  "combinedCode localeCompare g = join (newline @ newline) (sectionCodes localeCompare g)"

text \<open>
  The last step of \<open>generate\<close> parses the combined code and prints the file, with a header
  comment on the first statement when there is global metadata. Parser and printer are the
  TypeScript library's: \<open>printFile header code\<close> stands for their result and is a parameter.
  Every section is generated once, and each call changes the items of its own section only.
\<close>

definition Generator_generate ::
  "(string option \<Rightarrow> string \<Rightarrow> string) \<Rightarrow> (string \<Rightarrow> string \<Rightarrow> int) \<Rightarrow> Generator
     \<Rightarrow> string \<times> Generator" where
  "Generator_generate printFile localeCompare g =
     (printFile (if globalMetadata g \<noteq> [] then Some ''* Generated TypeScript code '' else None)
        (combinedCode localeCompare g),
      g\<lparr>sections := map (\<lambda>sec. snd (Section_generate localeCompare sec)) (sections g)\<rparr>)"

section \<open>Statement builders\<close>

datatype Error = Error string

text \<open>Statements, each with the text of its JSDoc leading comment when it has one.\<close>

datatype Statement =
    ExpressionStatement string
  | ReturnStatement "string option"
  | Block "Statement list" "string option"
  | IfStatement string Statement "Statement option" "string option"
  | ForStatement "string option" "string option" "string option" Statement "string option"
  | WhileStatement string Statement "string option"
  | DoStatement Statement string "string option"

text \<open>\<open>this.comments ? createJSDocComment(this.comments) : undefined\<close>, and the text
  \<open>`* ${jsDoc.comment} `\<close> of the leading comment made from it.\<close>

definition createJSDoc :: "Description \<Rightarrow> string option" where
  "createJSDoc c =
     (if descriptionTruthy c then Some (''* '' @ join newline (descriptionLines c) @ '' '') else None)"

record BlockBuilder =
  statements :: "Statement list"
  block_comments :: Description

definition BlockBuilder_generateNode :: "BlockBuilder \<Rightarrow> Statement" where
  "BlockBuilder_generateNode b = Block (statements b) (createJSDoc (block_comments b))"

record StatementBuilder =
  comments :: Description

record IfStatementBuilder = StatementBuilder +
  if_conditionExpr :: "string option"
  thenBlock :: "BlockBuilder option"
  elseIfClauses :: "(string \<times> BlockBuilder) list"
  elseBlock :: "BlockBuilder option"

definition IfStatementBuilder_generateNode :: "IfStatementBuilder \<Rightarrow> Error + Statement" where
  "IfStatementBuilder_generateNode b =
     (if \<not> truthy (if_conditionExpr b) then Inl (Error ''Condition is required for if statement'')
      else case thenBlock b of
        None \<Rightarrow> Inl (Error ''Then block is required for if statement'')
      | Some tb \<Rightarrow>
          (let thenStatement = BlockBuilder_generateNode tb;
               elseStatement =
                 (if elseIfClauses b \<noteq> []
                  then foldr (\<lambda>(condition, block) currentElse.
                                Some (IfStatement condition (BlockBuilder_generateNode block)
                                        currentElse None))
                         (elseIfClauses b) (map_option BlockBuilder_generateNode (elseBlock b))
                  else map_option BlockBuilder_generateNode (elseBlock b))
           in Inr (IfStatement (the (if_conditionExpr b)) thenStatement elseStatement
                     (createJSDoc (comments b)))))"

record LoopBuilder = StatementBuilder +
  bodyBlock :: "BlockBuilder option"

definition getBodyNode :: "'a LoopBuilder_scheme \<Rightarrow> Error + Statement" where
  "getBodyNode b =
     (case bodyBlock b of
        None \<Rightarrow> Inl (Error ''Body is required for loop statement'')
      | Some body \<Rightarrow> Inr (BlockBuilder_generateNode body))"

record ForLoopBuilder = LoopBuilder +
  initExpr :: "string option"
  for_conditionExpr :: "string option"
  incrementExpr :: "string option"

definition ForLoopBuilder_generateNode :: "ForLoopBuilder \<Rightarrow> Error + Statement" where
  "ForLoopBuilder_generateNode b =
     (case getBodyNode b of
        Inl e \<Rightarrow> Inl e
      | Inr bodyNode \<Rightarrow>
          Inr (ForStatement (initExpr b) (for_conditionExpr b) (incrementExpr b) bodyNode
                 (createJSDoc (comments b))))"

record WhileLoopBuilder = LoopBuilder +
  while_conditionExpr :: "string option"

definition WhileLoopBuilder_generateNode :: "WhileLoopBuilder \<Rightarrow> Error + Statement" where
  "WhileLoopBuilder_generateNode b =
     (if \<not> truthy (while_conditionExpr b)
      then Inl (Error ''Condition is required for while statement'')
      else case getBodyNode b of
        Inl e \<Rightarrow> Inl e
      | Inr bodyNode \<Rightarrow>
          Inr (WhileStatement (the (while_conditionExpr b)) bodyNode (createJSDoc (comments b))))"

record DoWhileLoopBuilder = LoopBuilder +
  doWhile_conditionExpr :: "string option"

definition DoWhileLoopBuilder_generateNode :: "DoWhileLoopBuilder \<Rightarrow> Error + Statement" where
  "DoWhileLoopBuilder_generateNode b =
     (if \<not> truthy (doWhile_conditionExpr b)
      then Inl (Error ''Condition is required for do-while statement'')
      else case getBodyNode b of
        Inl e \<Rightarrow> Inl e
      | Inr bodyNode \<Rightarrow>
          Inr (DoStatement bodyNode (the (doWhile_conditionExpr b)) (createJSDoc (comments b))))"

section \<open>What a declaration shows\<close>

text \<open>The default name, the namespace name and the specifiers of the declaration
  \<open>generate\<close> prints; nothing when it returns the empty string.\<close>

definition renderedDefault :: "ImportDeclaration option \<Rightarrow> string option" where
  "renderedDefault d =
     (case d of Some (ImportDeclaration (Some c) m) \<Rightarrow> clauseName c | _ \<Rightarrow> None)"

definition renderedNamespace :: "ImportDeclaration option \<Rightarrow> string option" where
  "renderedNamespace d =
     (case d of
        Some (ImportDeclaration (Some c) m) \<Rightarrow>
          (case namedBindings c of Some (NamespaceImport n) \<Rightarrow> Some n | _ \<Rightarrow> None)
      | _ \<Rightarrow> None)"

definition renderedSpecifiers :: "ImportDeclaration option \<Rightarrow> ImportSpecifier list" where
  "renderedSpecifiers d =
     (case d of
        Some (ImportDeclaration (Some c) m) \<Rightarrow>
          (case namedBindings c of Some (NamedImports elements) \<Rightarrow> elements | _ \<Rightarrow> [])
      | _ \<Rightarrow> [])"

text \<open>The name of a default or namespace import that reaches the clause: the import is
  declared, it is used or unused imports are included, and its name is not empty.\<close>

definition includedName :: "ImportsBuilder \<Rightarrow> SingleImport option \<Rightarrow> string option" where
  "includedName b imp =
     (case imp of
        None \<Rightarrow> None
      | Some d \<Rightarrow> if (includeUnused b \<or> bused d) \<and> bname d \<noteq> [] then Some (bname d) else None)"

text \<open>No binding of the builder is marked used.\<close>

definition noneUsed :: "ImportsBuilder \<Rightarrow> bool" where
  "noneUsed b =
     (list_all (\<lambda>i. \<not> used i) (namedImports b)
      \<and> (case defaultImport b of None \<Rightarrow> True | Some d \<Rightarrow> \<not> bused d)
      \<and> (case namespaceImport b of None \<Rightarrow> True | Some d \<Rightarrow> \<not> bused d))"

text \<open>The argument \<open>generate\<close> passes to \<open>createImportClause\<close> for the default and for the
  namespace import: \<open>include ? this.x!.name : undefined\<close>.\<close>

definition clauseArg :: "ImportsBuilder \<Rightarrow> SingleImport option \<Rightarrow> string option" where
  "clauseArg b imp = (if includeSingle b imp then map_option bname imp else None)"

section \<open>Example inputs\<close>

definition aliasedImport :: ImportsBuilder where
  "aliasedImport = named ''Type'' (Some ''Alias'') (newImportsBuilder ''./types'' False False)"

definition unmarkedStyled :: ImportsBuilder where
  "unmarkedStyled =
     named ''keyframes'' None (named ''css'' None
       (default_import ''styled'' (newImportsBuilder ''styled-components'' False False)))"

definition styledImports :: ImportsBuilder where
  "styledImports = markUsed ''css'' (markDefaultUsed unmarkedStyled)"

definition defaultAndNamespace :: ImportsBuilder where
  "defaultAndNamespace =
     markNamespaceUsed (markDefaultUsed
       (namespace ''N'' (default_import ''D'' (newImportsBuilder ''m'' False False))))"

definition namespaceAndNamed :: "bool \<Rightarrow> ImportsBuilder" where
  "namespaceAndNamed incl = named ''Foo'' None (namespace ''NS'' (newImportsBuilder ''m'' incl False))"

definition allKinds :: ImportsBuilder where
  "allKinds =
     named ''b'' (Some ''c'') (named ''a'' None
       (default_import ''D'' (newImportsBuilder ''m'' True False)))"

definition reactImports :: ImportsBuilder where
  "reactImports =
     namedMultiple [''useState'', ''useEffect'', ''useContext'']
       (newImportsBuilder ''react'' False False)"

definition plainOptions :: SectionOptions where
  "plainOptions = \<lparr>description = NoDescription, metadata = None, sortItems = False, order = None\<rparr>"

definition importItem :: "string \<Rightarrow> ImportsBuilder \<Rightarrow> CodeItem" where
  "importItem m b = \<lparr>item_type = Import, item_name = m, node = StringNode [], importsBuilder = Some b\<rparr>"

text \<open>The text \<open>ObjectBuilderImpl.generate\<close> gives for an object with one string property.\<close>

definition componentItem :: CodeItem where
  \<open>componentItem =
     \<lparr>item_type = Object, item_name = ''MyComponent'',
      node = StringNode ''const MyComponent = {\<newline>  setup: "function() { const [state, setState] = useState(0); useEffect(() => {}); }"\<newline>};'',
      importsBuilder = None\<rparr>\<close>

text \<open>The import is declared before the object that uses two of its names.\<close>

definition hooksSection :: Section where
  "hooksSection =
     \<lparr>section_name = ''Hooks'', options = plainOptions,
      items = [importItem ''react'' reactImports, componentItem]\<rparr>"

text \<open>An if statement whose block calls \<open>useState\<close>: the text has the name outside of any
  string literal, in lower case, and after none of the five patterns.\<close>

definition ifItem :: CodeItem where
  "ifItem =
     \<lparr>item_type = If, item_name = ''if'',
      node = AstNode \<lparr>plainText = ''if (ready) {\<newline>    useState(0);\<newline>}'',
                      commentedText = ''if (ready) {\<newline>    useState(0);\<newline>}'',
                      leadingComments = []\<rparr>,
      importsBuilder = None\<rparr>"

definition missedSection :: Section where
  "missedSection =
     \<lparr>section_name = ''Hooks'', options = plainOptions,
      items = [importItem ''react'' (named ''useState'' None (newImportsBuilder ''react'' False False)),
               ifItem]\<rparr>"

text \<open>A namespace import and a named import of one module, and an object whose text names
  both.\<close>

definition nsImports :: ImportsBuilder where
  "nsImports = named ''Foo'' None (namespace ''NS'' (newImportsBuilder ''m'' False False))"

definition nsItem :: CodeItem where
  "nsItem =
     \<lparr>item_type = Object, item_name = ''o'',
      node = StringNode ''const o: Foo = NS.make();'', importsBuilder = None\<rparr>"

definition nsSection :: Section where
  "nsSection =
     \<lparr>section_name = ''Lib'', options = plainOptions,
      items = [importItem ''m'' nsImports, nsItem]\<rparr>"

text \<open>A default import and an object with a string property that names it.\<close>

definition domImports :: ImportsBuilder where
  "domImports = default_import ''ReactDOM'' (newImportsBuilder ''react-dom'' False False)"

definition domItem :: CodeItem where
  \<open>domItem =
     \<lparr>item_type = Object, item_name = ''root'',
      node = StringNode ''const root = {\<newline>  mount: "ReactDOM.render(app)"\<newline>};'',
      importsBuilder = None\<rparr>\<close>

definition domSection :: Section where
  "domSection =
     \<lparr>section_name = ''Dom'', options = plainOptions,
      items = [importItem ''react-dom'' domImports, domItem]\<rparr>"

definition unusedImports :: ImportsBuilder where
  "unusedImports =
     named ''AnotherUnusedType'' None
       (named ''UnusedFunction'' None (newImportsBuilder ''unused-module'' False False))"

definition unusedSection :: Section where
  "unusedSection =
     \<lparr>section_name = ''Hooks'', options = plainOptions,
      items = [importItem ''react'' reactImports, importItem ''unused-module'' unusedImports,
               componentItem]\<rparr>"

definition enumItem :: CodeItem where
  "enumItem =
     \<lparr>item_type = Enum, item_name = ''Status'',
      node = AstNode \<lparr>plainText = ''enum Status {\<newline>    Active,\<newline>    Inactive\<newline>}'',
                      commentedText = ''enum Status {\<newline>    Active,\<newline>    Inactive\<newline>}'',
                      leadingComments = []\<rparr>,
      importsBuilder = None\<rparr>"

definition enumSection :: Section where
  "enumSection = \<lparr>section_name = ''Enums'', options = plainOptions, items = [enumItem]\<rparr>"

definition enumGenerator :: Generator where
  "enumGenerator =
     \<lparr>sections = [enumSection], globalMetadata = [(''generator'', Some ''ts-generator-builder'')]\<rparr>"

text \<open>A comparator for the examples, none of which sorts its items.\<close>

definition sameRank :: "string \<Rightarrow> string \<Rightarrow> int" where
  "sameRank a b = 0"

text \<open>A printer of the file that gives back the text it parsed, behind the header
  comment when there is one.\<close>

definition printFileVerbatim :: "string option \<Rightarrow> string \<Rightarrow> string" where
  "printFileVerbatim header code =
     (case header of None \<Rightarrow> [] | Some h \<Rightarrow> ''/*'' @ h @ ''*/'' @ newline) @ code"

text \<open>Two sections that each import \<open>User\<close>; only the second one refers to it.\<close>

definition userImports :: ImportsBuilder where
  "userImports = named ''User'' None (newImportsBuilder ''./types'' False False)"

definition profileItem :: CodeItem where
  \<open>profileItem =
     \<lparr>item_type = Object, item_name = ''profile'',
      node = StringNode ''const profile = {\<newline>  kind: "User"\<newline>};'', importsBuilder = None\<rparr>\<close>

definition labelItem :: CodeItem where
  \<open>labelItem =
     \<lparr>item_type = Object, item_name = ''label'',
      node = StringNode ''const label = {\<newline>  width: 80\<newline>};'', importsBuilder = None\<rparr>\<close>

definition sectionA :: Section where
  "sectionA =
     \<lparr>section_name = ''A'', options = plainOptions,
      items = [importItem ''./types'' userImports, labelItem]\<rparr>"

definition sectionB :: "CodeItem list \<Rightarrow> Section" where
  "sectionB content =
     \<lparr>section_name = ''B'', options = plainOptions,
      items = importItem ''./types'' userImports # content\<rparr>"

definition twoSections :: "CodeItem list \<Rightarrow> Generator" where
  "twoSections content = \<lparr>sections = [sectionA, sectionB content], globalMetadata = []\<rparr>"

section \<open>Properties of the imports builder\<close>

lemmas builder_defs = named_def newImportsBuilder_def default_import_def namespace_def
  markUsed_def markDefaultUsed_def markNamespaceUsed_def

lemmas render_defs = generateImports_def generateDeclaration_def includeSingle_def
  filteredNamedImports_def createImportClause_def createImportSpecifier_def truthy_def
  printImportDeclaration_def printImportClause_def printNamedBindings_def printImportSpecifier_def
  stringLiteral_def

lemma markFirst_absent: "\<forall>imp\<in>set imps. name imp \<noteq> n \<Longrightarrow> markFirst n imps = imps"
  by (induction imps) auto

lemma markFirst_used:
  "find (\<lambda>i. name i = n) imps = Some imp \<Longrightarrow> imp\<lparr>used := True\<rparr> \<in> set (markFirst n imps)"
  by (induction imps) (auto split: if_splits)

lemma markUsedFromTracker_named:
  "namedImports (markUsedFromTracker t b) =
     map (\<lambda>i. if name i \<in> usedIdentifiers t then i\<lparr>used := True\<rparr> else i) (namedImports b)"
  by (simp add: markUsedFromTracker_def isUsed_def)

lemma markUsedFromTracker_includeUnused [simp]:
  "includeUnused (markUsedFromTracker t b) = includeUnused b"
  by (simp add: markUsedFromTracker_def)

lemma createImportSpecifier_used [simp]:
  "createImportSpecifier (imp\<lparr>used := u\<rparr>) = createImportSpecifier imp"
  by (simp add: createImportSpecifier_def)

lemma subseq_filtered: "subseq (filteredNamedImports b) (namedImports b)"
  by (simp add: filteredNamedImports_def)

lemma truthy_clauseArg: "truthy (clauseArg b imp) \<longleftrightarrow> includedName b imp \<noteq> None"
  by (cases imp) (simp_all add: clauseArg_def truthy_def includeSingle_def includedName_def)

lemma clauseArg_value: "truthy (clauseArg b imp) \<Longrightarrow> clauseArg b imp = includedName b imp"
  by (cases imp)
     (auto simp: clauseArg_def truthy_def includeSingle_def includedName_def split: if_splits)

lemma createImportClause_included:
  "createImportClause ty (clauseArg b d) (clauseArg b n) imps =
     (if includedName b d = None \<and> includedName b n = None \<and> imps = [] then None
      else Some \<lparr>isTypeOnly = ty, clauseName = includedName b d,
                 namedBindings =
                   (case includedName b n of
                      Some ns \<Rightarrow> Some (NamespaceImport ns)
                    | None \<Rightarrow> if imps = [] then None
                              else Some (NamedImports (map createImportSpecifier imps)))\<rparr>)"
proof -
  have d: "(if truthy (clauseArg b d) then clauseArg b d else None) = includedName b d"
    using truthy_clauseArg[of b d] clauseArg_value[of b d] by auto
  have n: "truthy (clauseArg b n) \<Longrightarrow> \<exists>ns. includedName b n = Some ns \<and> the (clauseArg b n) = ns"
    using truthy_clauseArg[of b n] clauseArg_value[of b n] by auto
  have n': "\<not> truthy (clauseArg b n) \<Longrightarrow> includedName b n = None"
    using truthy_clauseArg[of b n] by simp
  show ?thesis
  proof (cases "truthy (clauseArg b n)")
    case True
    with n obtain ns where "includedName b n = Some ns" "the (clauseArg b n) = ns" by blast
    with True d show ?thesis by (auto simp: createImportClause_def Let_def)
  next
    case False
    with n' have "includedName b n = None" by simp
    with False d show ?thesis by (auto simp: createImportClause_def Let_def)
  qed
qed

lemma generateDeclaration_included:
  "generateDeclaration b =
     (if filteredNamedImports b = [] \<and> \<not> includeSingle b (defaultImport b)
         \<and> \<not> includeSingle b (namespaceImport b) then None
      else if includedName b (defaultImport b) = None \<and> includedName b (namespaceImport b) = None
              \<and> filteredNamedImports b = []
      then Some (ImportDeclaration None (moduleSpecifier b))
      else Some (ImportDeclaration
                   (Some \<lparr>isTypeOnly = typeOnly b,
                          clauseName = includedName b (defaultImport b),
                          namedBindings =
                            (case includedName b (namespaceImport b) of
                               Some ns \<Rightarrow> Some (NamespaceImport ns)
                             | None \<Rightarrow> if filteredNamedImports b = [] then None
                                       else Some (NamedImports
                                                    (map createImportSpecifier (filteredNamedImports b))))\<rparr>)
                   (moduleSpecifier b)))"
  unfolding generateDeclaration_def Let_def clauseArg_def[symmetric] createImportClause_included
  by simp

lemma renderedSpecifiers_eq:
  "includedName b (namespaceImport b) = None \<Longrightarrow>
     renderedSpecifiers (generateDeclaration b) = map createImportSpecifier (filteredNamedImports b)"
  by (simp add: generateDeclaration_included renderedSpecifiers_def)

lemma renderedDefault_eq:
  "includedName b (defaultImport b) = Some n \<Longrightarrow> renderedDefault (generateDeclaration b) = Some n"
  by (auto simp: generateDeclaration_included renderedDefault_def includedName_def includeSingle_def
           split: option.splits if_splits)

lemma renderedNamespace_eq:
  "includedName b (namespaceImport b) = Some n \<Longrightarrow> renderedNamespace (generateDeclaration b) = Some n"
  by (auto simp: generateDeclaration_included renderedNamespace_def includedName_def includeSingle_def
           split: option.splits if_splits)

text \<open>The default and the namespace name a declaration shows are the included ones.\<close>

lemma renderedNamespace_included:
  "renderedNamespace (generateDeclaration b) = includedName b (namespaceImport b)"
  by (auto simp: generateDeclaration_included renderedNamespace_def includedName_def includeSingle_def
           split: option.splits if_splits)

lemma renderedDefault_included:
  "renderedDefault (generateDeclaration b) = includedName b (defaultImport b)"
  by (auto simp: generateDeclaration_included renderedDefault_def includedName_def includeSingle_def
           split: option.splits if_splits)


lemma marked_survives:
  assumes "find (\<lambda>i. name i = n) (namedImports b) = Some imp"
  shows "imp\<lparr>used := True\<rparr> \<in> set (filteredNamedImports (markUsedFromTracker t (markUsed n b)))"
proof -
  define f :: "NamedImportDefinition \<Rightarrow> NamedImportDefinition"
    where "f = (\<lambda>i. if name i \<in> usedIdentifiers t then i\<lparr>used := True\<rparr> else i)"
  from assms have "imp\<lparr>used := True\<rparr> \<in> set (namedImports (markUsed n b))"
    by (simp add: markUsed_def markFirst_used)
  then have "f (imp\<lparr>used := True\<rparr>) \<in> f ` set (namedImports (markUsed n b))"
    by (rule imageI)
  moreover have "f (imp\<lparr>used := True\<rparr>) = imp\<lparr>used := True\<rparr>"
    by (simp add: f_def)
  moreover have "set (namedImports (markUsedFromTracker t (markUsed n b)))
      = f ` set (namedImports (markUsed n b))"
    by (simp add: markUsedFromTracker_named f_def)
  ultimately have "imp\<lparr>used := True\<rparr> \<in> set (namedImports (markUsedFromTracker t (markUsed n b)))"
    by simp
  then show ?thesis by (simp add: filteredNamedImports_def)
qed

lemma includedName_includeUnused:
  "includeUnused b \<Longrightarrow> imp = Some d \<Longrightarrow> bname d \<noteq> [] \<Longrightarrow> includedName b imp = Some (bname d)"
  by (simp add: includedName_def)

lemma reconcile_empty_tracker: "markUsedFromTracker newTypeUsageTracker c = c"
  by (simp add: markUsedFromTracker_def newTypeUsageTracker_def isUsed_def markSingleFromTracker_def
           split: option.splits cong: option.case_cong)

text \<open>
  C10. \<open>markUsed(name)\<close> when no named import has that source name (also when the name is
  only the alias of one), and \<open>markDefaultUsed()\<close> or \<open>markNamespaceUsed()\<close> when no default or
  namespace import is declared, return the builder as it was: nothing is raised, no binding
  is created and no flag changes.
\<close>

theorem markUsed_unknown_is_noop:
  "((\<forall>imp\<in>set (namedImports b). name imp \<noteq> n) \<longrightarrow> markUsed n b = b)
   \<and> (defaultImport b = None \<longrightarrow> markDefaultUsed b = b)
   \<and> (namespaceImport b = None \<longrightarrow> markNamespaceUsed b = b)"
  by (simp add: markUsed_def markDefaultUsed_def markNamespaceUsed_def markFirst_absent)

theorem markUsed_unknown_is_noop_witness:
  "markUsed ''Alias'' aliasedImport = aliasedImport
   \<and> markDefaultUsed aliasedImport = aliasedImport
   \<and> markNamespaceUsed aliasedImport = aliasedImport"
  using markUsed_unknown_is_noop[of aliasedImport "''Alias''"]
  by (simp add: aliasedImport_def named_def newImportsBuilder_def)

text \<open>What reconciliation does to the flags: a flag is set when the tracker holds the name
  the builder looks up, and a flag that is set stays set.\<close>

lemma reconciliation_flags:
  "map used (namedImports (markUsedFromTracker t b))
     = map (\<lambda>i. used i \<or> name i \<in> usedIdentifiers t) (namedImports b)
   \<and> map_option bused (defaultImport (markUsedFromTracker t b))
     = map_option (\<lambda>d. bused d \<or> bname d \<in> usedIdentifiers t) (defaultImport b)
   \<and> map_option bused (namespaceImport (markUsedFromTracker t b))
     = map_option (\<lambda>d. bused d \<or> bname d \<in> usedIdentifiers t) (namespaceImport b)"
  by (simp add: markUsedFromTracker_def markSingleFromTracker_def isUsed_def
           split: option.splits)

text \<open>
  C2. Reconciliation looks a named import up in the tracker by its source name, not by its
  local name: for \<open>import { Type as Alias }\<close> a tracker that reports \<open>Alias\<close> leaves the
  binding unused and the statement is dropped, while a tracker that reports \<open>Type\<close> marks it.
\<close>

theorem markUsedFromTracker_checks_source_name:
  \<open>namedImports (markUsedFromTracker \<lparr>usedIdentifiers = {''Alias''}\<rparr> aliasedImport)
      = [\<lparr>name = ''Type'', aliasName = Some ''Alias'', used = False\<rparr>]
   \<and> generateImports (markUsedFromTracker \<lparr>usedIdentifiers = {''Alias''}\<rparr> aliasedImport) = []
   \<and> generateImports (markUsedFromTracker \<lparr>usedIdentifiers = {''Type''}\<rparr> aliasedImport)
      = ''import { Type as Alias } from "./types";''\<close>
  by (simp add: aliasedImport_def builder_defs markUsedFromTracker_def isUsed_def
      markSingleFromTracker_def render_defs)

text \<open>
  C4, as the claim states it, fails: with a default and a namespace import both declared
  and used, both are rendered; the namespace import does not replace the default one.
\<close>

theorem default_and_namespace_both_rendered:
  \<open>generateImports defaultAndNamespace = ''import D, * as N from "m";''\<close>
  by (simp add: defaultAndNamespace_def builder_defs render_defs)

text \<open>
  C4, amended. In a rendered import statement with a clause, the default name (when a
  default import is included) comes first; it is followed by the namespace import when one
  is included, and otherwise by the group of the named imports that pass the filter. The
  namespace import and the named group exclude each other, and the namespace import wins.
  The named imports are rendered in the order of their declaration.
\<close>

theorem import_clause_layout:
  assumes "generateDeclaration b = Some (ImportDeclaration (Some c) m)"
  shows "clauseName c = includedName b (defaultImport b)
    \<and> namedBindings c =
        (case includedName b (namespaceImport b) of
           Some ns \<Rightarrow> Some (NamespaceImport ns)
         | None \<Rightarrow> if filteredNamedImports b = [] then None
                   else Some (NamedImports (map createImportSpecifier (filteredNamedImports b))))
    \<and> subseq (filteredNamedImports b) (namedImports b)
    \<and> printImportDeclaration (ImportDeclaration (Some c) m) =
        ''import '' @ (if typeOnly b then ''type '' else [])
        @ (case clauseName c of None \<Rightarrow> [] | Some n \<Rightarrow> n)
        @ (if clauseName c \<noteq> None \<and> namedBindings c \<noteq> None then '', '' else [])
        @ (case namedBindings c of
             None \<Rightarrow> []
           | Some (NamespaceImport ns) \<Rightarrow> ''* as '' @ ns
           | Some (NamedImports elements) \<Rightarrow>
               ''{ '' @ join '', '' (map printImportSpecifier elements) @ '' }'')
        @ '' from '' @ stringLiteral m @ '';''"
proof -
  from assms have c: "c = \<lparr>isTypeOnly = typeOnly b,
                          clauseName = includedName b (defaultImport b),
                          namedBindings =
                            (case includedName b (namespaceImport b) of
                               Some ns \<Rightarrow> Some (NamespaceImport ns)
                             | None \<Rightarrow> if filteredNamedImports b = [] then None
                                       else Some (NamedImports
                                                    (map createImportSpecifier (filteredNamedImports b))))\<rparr>"
    by (simp add: generateDeclaration_included split: if_splits)
  have 1: "clauseName c = includedName b (defaultImport b)" by (simp add: c)
  have 2: "namedBindings c =
        (case includedName b (namespaceImport b) of
           Some ns \<Rightarrow> Some (NamespaceImport ns)
         | None \<Rightarrow> if filteredNamedImports b = [] then None
                   else Some (NamedImports (map createImportSpecifier (filteredNamedImports b))))"
    by (simp add: c)
  have ty: "isTypeOnly c = typeOnly b" by (simp add: c)
  have ne: "\<And>els. namedBindings c = Some (NamedImports els) \<Longrightarrow> els \<noteq> []"
    unfolding 2 by (auto split: option.splits if_splits)
  have 4: "printImportDeclaration (ImportDeclaration (Some c) m) =
        ''import '' @ (if typeOnly b then ''type '' else [])
        @ (case clauseName c of None \<Rightarrow> [] | Some n \<Rightarrow> n)
        @ (if clauseName c \<noteq> None \<and> namedBindings c \<noteq> None then '', '' else [])
        @ (case namedBindings c of
             None \<Rightarrow> []
           | Some (NamespaceImport ns) \<Rightarrow> ''* as '' @ ns
           | Some (NamedImports elements) \<Rightarrow>
               ''{ '' @ join '', '' (map printImportSpecifier elements) @ '' }'')
        @ '' from '' @ stringLiteral m @ '';''"
  proof (cases "namedBindings c")
    case None
    then show ?thesis by (simp add: printImportDeclaration_def printImportClause_def ty)
  next
    case (Some nb)
    show ?thesis
    proof (cases nb)
      case (NamespaceImport ns)
      with Some show ?thesis
        by (simp add: printImportDeclaration_def printImportClause_def printNamedBindings_def ty)
    next
      case (NamedImports els)
      with Some ne have "els \<noteq> []" by simp
      with Some NamedImports show ?thesis
        by (simp add: printImportDeclaration_def printImportClause_def printNamedBindings_def ty)
    qed
  qed
  from 1 2 4 subseq_filtered show ?thesis by blast
qed

theorem import_clause_layout_witness:
  \<open>generateDeclaration styledImports =
      Some (ImportDeclaration
              (Some \<lparr>isTypeOnly = False, clauseName = Some ''styled'',
                     namedBindings = Some (NamedImports [\<lparr>propertyName = None, localName = ''css''\<rparr>])\<rparr>)
              ''styled-components'')
   \<and> printImportDeclaration (ImportDeclaration
              (Some \<lparr>isTypeOnly = False, clauseName = Some ''styled'',
                     namedBindings = Some (NamedImports [\<lparr>propertyName = None, localName = ''css''\<rparr>])\<rparr>)
              ''styled-components'') = ''import styled, { css } from "styled-components";''\<close>
proof -
  have g: "generateDeclaration styledImports =
      Some (ImportDeclaration
              (Some \<lparr>isTypeOnly = False, clauseName = Some ''styled'',
                     namedBindings = Some (NamedImports [\<lparr>propertyName = None, localName = ''css''\<rparr>])\<rparr>)
              ''styled-components'')"
    by (simp add: styledImports_def unmarkedStyled_def builder_defs render_defs)
  have ty: "typeOnly styledImports = False"
    by (simp add: styledImports_def unmarkedStyled_def builder_defs)
  note p = import_clause_layout[OF g, THEN conjunct2, THEN conjunct2, THEN conjunct2]
  have "printImportDeclaration (ImportDeclaration
              (Some \<lparr>isTypeOnly = False, clauseName = Some ''styled'',
                     namedBindings = Some (NamedImports [\<lparr>propertyName = None, localName = ''css''\<rparr>])\<rparr>)
              ''styled-components'') = ''import styled, { css } from '' @ stringLiteral ''styled-components'' @ '';''"
    unfolding p ty by (simp add: printImportSpecifier_def)
  with g show ?thesis by (simp add: stringLiteral_def)
qed

text \<open>
  C5, as the claim states it, fails: a named import that \<open>markUsed\<close> has marked is not
  rendered when the statement shows a namespace import, and with \<open>includeUnused\<close> a declared
  named import is not rendered beside a declared namespace import.
\<close>

theorem namespace_hides_named:
  \<open>generateImports (markUsedFromTracker newTypeUsageTracker
                      (markUsed ''Foo'' (markNamespaceUsed (namespaceAndNamed False))))
      = ''import * as NS from "m";''
   \<and> generateImports (markUsedFromTracker newTypeUsageTracker (namespaceAndNamed True))
      = ''import * as NS from "m";''\<close>
  by (simp add: namespaceAndNamed_def builder_defs markUsedFromTracker_def isUsed_def
      markSingleFromTracker_def newTypeUsageTracker_def render_defs)

text \<open>
  C5, amended. After \<open>markUsed(n)\<close>, the first declared named import with source name \<open>n\<close>
  passes the filter of \<open>generate\<close> whatever the tracker holds, and it is among the rendered
  specifiers unless the statement shows a namespace import, which replaces the named group.
  With \<open>includeUnused\<close> and an empty tracker, a declared default import and a declared
  namespace import with a non-empty name are rendered, and every declared named import is
  rendered when no namespace import is.
\<close>

theorem override_wins:
  "(find (\<lambda>i. name i = n) (namedImports b) = Some imp \<longrightarrow>
      imp\<lparr>used := True\<rparr> \<in> set (filteredNamedImports (markUsedFromTracker t (markUsed n b)))
      \<and> (includedName (markUsedFromTracker t (markUsed n b))
            (namespaceImport (markUsedFromTracker t (markUsed n b))) = None \<longrightarrow>
          createImportSpecifier imp
            \<in> set (renderedSpecifiers (generateDeclaration (markUsedFromTracker t (markUsed n b))))))
   \<and> (includeUnused c \<longrightarrow>
        (\<forall>d. defaultImport c = Some d \<and> bname d \<noteq> [] \<longrightarrow>
           renderedDefault (generateDeclaration (markUsedFromTracker newTypeUsageTracker c))
             = Some (bname d))
      \<and> (\<forall>d. namespaceImport c = Some d \<and> bname d \<noteq> [] \<longrightarrow>
           renderedNamespace (generateDeclaration (markUsedFromTracker newTypeUsageTracker c))
             = Some (bname d))
      \<and> (includedName c (namespaceImport c) = None \<longrightarrow>
           renderedSpecifiers (generateDeclaration (markUsedFromTracker newTypeUsageTracker c))
             = map createImportSpecifier (namedImports c)))"
proof -
  let ?b = "markUsedFromTracker t (markUsed n b)"
  have A: "imp\<lparr>used := True\<rparr> \<in> set (filteredNamedImports ?b)"
    if "find (\<lambda>i. name i = n) (namedImports b) = Some imp"
    using that by (rule marked_survives)
  have B: "createImportSpecifier imp \<in> set (renderedSpecifiers (generateDeclaration ?b))"
    if f: "find (\<lambda>i. name i = n) (namedImports b) = Some imp"
    and ns: "includedName ?b (namespaceImport ?b) = None"
  proof -
    from A[OF f] have "createImportSpecifier (imp\<lparr>used := True\<rparr>)
        \<in> createImportSpecifier ` set (filteredNamedImports ?b)"
      by (rule imageI)
    then show ?thesis by (simp add: renderedSpecifiers_eq[OF ns])
  qed
  let ?c = "markUsedFromTracker newTypeUsageTracker c"
  have same: "?c = c" by (rule reconcile_empty_tracker)
  have C: "renderedDefault (generateDeclaration ?c) = Some (bname d)"
    if "includeUnused c" "defaultImport c = Some d" "bname d \<noteq> []" for d
    unfolding same using that by (simp add: renderedDefault_eq includedName_includeUnused)
  have D: "renderedNamespace (generateDeclaration ?c) = Some (bname d)"
    if "includeUnused c" "namespaceImport c = Some d" "bname d \<noteq> []" for d
    unfolding same using that by (simp add: renderedNamespace_eq includedName_includeUnused)
  have E: "renderedSpecifiers (generateDeclaration ?c) = map createImportSpecifier (namedImports c)"
    if "includeUnused c" "includedName c (namespaceImport c) = None"
    unfolding same using that by (simp add: renderedSpecifiers_eq filteredNamedImports_def)
  from A B C D E show ?thesis by blast
qed

theorem override_wins_witness:
  "createImportSpecifier \<lparr>name = ''css'', aliasName = None, used = False\<rparr>
      \<in> set (renderedSpecifiers (generateDeclaration
                (markUsedFromTracker newTypeUsageTracker (markUsed ''css'' unmarkedStyled))))
   \<and> renderedDefault (generateDeclaration (markUsedFromTracker newTypeUsageTracker allKinds))
       = Some ''D''
   \<and> renderedSpecifiers (generateDeclaration (markUsedFromTracker newTypeUsageTracker allKinds))
       = [\<lparr>propertyName = None, localName = ''a''\<rparr>, \<lparr>propertyName = Some ''b'', localName = ''c''\<rparr>]
   \<and> renderedNamespace (generateDeclaration
        (markUsedFromTracker newTypeUsageTracker (namespaceAndNamed True))) = Some ''NS''"
  using override_wins[of "''css''" unmarkedStyled "\<lparr>name = ''css'', aliasName = None, used = False\<rparr>"
          newTypeUsageTracker allKinds]
        override_wins[of "''css''" unmarkedStyled "\<lparr>name = ''css'', aliasName = None, used = False\<rparr>"
          newTypeUsageTracker "namespaceAndNamed True"]
  by (simp add: unmarkedStyled_def allKinds_def namespaceAndNamed_def builder_defs
       reconcile_empty_tracker includedName_def createImportSpecifier_def truthy_def)

section \<open>Properties of the statement builders\<close>

text \<open>
  C9. Generating the node of an if statement without a condition or without a then block,
  or of a loop without a body, returns the error, never a statement, and the message names
  the missing piece and the kind of statement. A while or do-while loop checks its
  condition before its body, so without either the message names the condition.
\<close>

theorem missing_piece_raises:
  "(\<not> truthy (if_conditionExpr b) \<longrightarrow>
      IfStatementBuilder_generateNode b = Inl (Error ''Condition is required for if statement''))
   \<and> (truthy (if_conditionExpr b') \<and> thenBlock b' = None \<longrightarrow>
      IfStatementBuilder_generateNode b' = Inl (Error ''Then block is required for if statement''))
   \<and> (bodyBlock f = None \<longrightarrow>
      ForLoopBuilder_generateNode f = Inl (Error ''Body is required for loop statement''))
   \<and> (bodyBlock w = None \<longrightarrow>
      WhileLoopBuilder_generateNode w =
        Inl (Error (if truthy (while_conditionExpr w) then ''Body is required for loop statement''
                    else ''Condition is required for while statement'')))
   \<and> (bodyBlock d = None \<longrightarrow>
      DoWhileLoopBuilder_generateNode d =
        Inl (Error (if truthy (doWhile_conditionExpr d) then ''Body is required for loop statement''
                    else ''Condition is required for do-while statement'')))"
  by (simp add: IfStatementBuilder_generateNode_def ForLoopBuilder_generateNode_def
      WhileLoopBuilder_generateNode_def DoWhileLoopBuilder_generateNode_def getBodyNode_def)

theorem missing_piece_raises_witness:
  "IfStatementBuilder_generateNode
     \<lparr>comments = NoDescription, if_conditionExpr = None,
      thenBlock = Some \<lparr>statements = [], block_comments = NoDescription\<rparr>,
      elseIfClauses = [], elseBlock = None\<rparr>
     = Inl (Error ''Condition is required for if statement'')
   \<and> IfStatementBuilder_generateNode
     \<lparr>comments = NoDescription, if_conditionExpr = Some ''x > 0'', thenBlock = None,
      elseIfClauses = [], elseBlock = None\<rparr>
     = Inl (Error ''Then block is required for if statement'')
   \<and> ForLoopBuilder_generateNode
     \<lparr>comments = NoDescription, bodyBlock = None, initExpr = None, for_conditionExpr = None,
      incrementExpr = None\<rparr>
     = Inl (Error ''Body is required for loop statement'')
   \<and> WhileLoopBuilder_generateNode
     \<lparr>comments = NoDescription, bodyBlock = None, while_conditionExpr = Some ''x > 0''\<rparr>
     = Inl (Error ''Body is required for loop statement'')
   \<and> DoWhileLoopBuilder_generateNode
     \<lparr>comments = NoDescription, bodyBlock = None, doWhile_conditionExpr = Some ''x > 0''\<rparr>
     = Inl (Error ''Body is required for loop statement'')"
  using missing_piece_raises[of
     "\<lparr>comments = NoDescription, if_conditionExpr = None,
      thenBlock = Some \<lparr>statements = [], block_comments = NoDescription\<rparr>,
      elseIfClauses = [], elseBlock = None\<rparr>"
     "\<lparr>comments = NoDescription, if_conditionExpr = Some ''x > 0'', thenBlock = None,
      elseIfClauses = [], elseBlock = None\<rparr>"
     "\<lparr>comments = NoDescription, bodyBlock = None, initExpr = None, for_conditionExpr = None,
      incrementExpr = None\<rparr>"
     "\<lparr>comments = NoDescription, bodyBlock = None, while_conditionExpr = Some ''x > 0''\<rparr>"
     "\<lparr>comments = NoDescription, bodyBlock = None, doWhile_conditionExpr = Some ''x > 0''\<rparr>"]
  by (simp add: truthy_def)

section \<open>Properties of the usage tracker\<close>

lemma scanStringContent_adds:
  "usedIdentifiers (scanStringContent content t) =
     usedIdentifiers t \<union> set (execAll functionCallRegex None 0 content)
     \<union> (set (execAll identifierRegex None 0 content) - set stoplist)"
  by (auto simp: scanStringContent_def scanStringContentFound_def)

text \<open>Every capture of the tracker's expressions has at least one character, so the
  scan never adds the empty name.\<close>

lemma execAll_nonempty_aux:
  "\<forall>prev s cap len. m prev s = Some (cap, len) \<longrightarrow> cap \<noteq> []
     \<Longrightarrow> [] \<notin> set (execAll m prev k s)"
proof (induction m prev k s rule: execAll.induct)
  case (1 m prev k)
  show ?case by simp
next
  case (2 m prev k c cs)
  then show ?case by simp
next
  case (3 m prev c cs)
  show ?case
  proof (cases "m prev (c # cs)")
    case None
    with 3 show ?thesis by simp
  next
    case (Some r)
    obtain cap len where r: "r = (cap, len)" by (cases r)
    from Some r "3.prems" have "cap \<noteq> []" by blast
    moreover from "3.IH"(2)[OF Some r[symmetric] "3.prems"]
    have "[] \<notin> set (execAll m (Some c) (len - 1) cs)" .
    ultimately show ?thesis using Some r by simp
  qed
qed

lemma execAll_nonempty:
  assumes "\<And>prev s cap len. m prev s = Some (cap, len) \<Longrightarrow> cap \<noteq> []"
  shows "[] \<notin> set (execAll m prev k s)"
  using assms by (intro execAll_nonempty_aux) blast

lemma identAt_nonempty: "identAt s = Some w \<Longrightarrow> w \<noteq> []"
  by (auto simp: identAt_def split: list.splits if_splits)

lemma typeReferenceRegex_nonempty: "typeReferenceRegex prev s = Some (cap, len) \<Longrightarrow> cap \<noteq> []"
  by (auto simp: typeReferenceRegex_def Let_def split: list.splits if_splits)

lemma identifierRegex_nonempty: "identifierRegex prev s = Some (cap, len) \<Longrightarrow> cap \<noteq> []"
  by (auto simp: identifierRegex_def Let_def split: list.splits if_splits)

lemma functionCallRegex_nonempty: "functionCallRegex prev s = Some (cap, len) \<Longrightarrow> cap \<noteq> []"
  by (auto simp: functionCallRegex_def Let_def split: list.splits if_splits)

lemma annotationRegex_nonempty: "annotationRegex prev s = Some (cap, len) \<Longrightarrow> cap \<noteq> []"
  by (auto simp: annotationRegex_def Let_def dest: identAt_nonempty
           split: list.splits if_splits option.splits)

lemma keywordRegex_nonempty: "keywordRegex kw prev s = Some (cap, len) \<Longrightarrow> cap \<noteq> []"
  by (auto simp: keywordRegex_def Let_def dest: identAt_nonempty
           split: if_splits option.splits)

lemma scanStringContentFound_nonempty: "[] \<notin> set (scanStringContentFound content)"
  using execAll_nonempty[of functionCallRegex, OF functionCallRegex_nonempty]
        execAll_nonempty[of identifierRegex, OF identifierRegex_nonempty]
  by (auto simp: scanStringContentFound_def)

lemma scanStringFound_nonempty: "[] \<notin> set (scanStringFound code)"
proof -
  have p: "[] \<notin> set (execAll pattern None 0 code)" if "pattern \<in> set patterns" for pattern
  proof -
    from that consider "pattern = annotationRegex" | kw where "pattern = keywordRegex kw"
      by (auto simp: patterns_def)
    then show ?thesis
    proof cases
      case 1
      then show ?thesis
        using execAll_nonempty[of annotationRegex, OF annotationRegex_nonempty] by simp
    next
      case 2
      then show ?thesis
        using execAll_nonempty[of "keywordRegex kw", OF keywordRegex_nonempty] by simp
    qed
  qed
  have t: "[] \<notin> set (execAll typeReferenceRegex None 0 code)"
    using execAll_nonempty[of typeReferenceRegex, OF typeReferenceRegex_nonempty] by simp
  show ?thesis
    using p t scanStringContentFound_nonempty by (auto simp: scanStringFound_def)
qed

text \<open>
  C6. On the literal content \<open>if (x) { doThing(); }\<close> the identifier loop skips \<open>if\<close>, but
  the function-call pattern, which has no stoplist, matches \<open>if (\<close> and adds \<open>if\<close> as a
  callee: the used set of \<open>scanString\<close> on the quoted fragment holds \<open>if\<close> beside \<open>doThing\<close>
  and \<open>x\<close>.
\<close>

theorem keyword_callee_is_added:
  \<open>execAll functionCallRegex None 0 ''if (x) { doThing(); }'' = [''if'', ''doThing'']
   \<and> filter (\<lambda>keyword. keyword \<notin> set stoplist)
         (execAll identifierRegex None 0 ''if (x) { doThing(); }'') = [''x'', ''doThing'']
   \<and> usedIdentifiers (scanStringContent ''if (x) { doThing(); }'' newTypeUsageTracker)
       = {''if'', ''doThing'', ''x''}
   \<and> usedIdentifiers (scanString ''"if (x) { doThing(); }"'' newTypeUsageTracker)
       = {''if'', ''doThing'', ''x''}\<close>
  by code_simp

section \<open>Properties of sections\<close>

text \<open>The sorted entries without their indices, and the tracker after the scan phase as
  the union of what the scan finds in each non-import item.\<close>

lemma set_insertBy: "set (insertBy cmp x xs) = insert x (set xs)"
  by (induction xs) auto

lemma set_sortBy: "set (sortBy cmp xs) = set xs"
  unfolding sortBy_def by (induction xs) (simp_all add: set_insertBy)

lemma map_snd_insertBy:
  "map snd (insertBy (\<lambda>a b. c (snd a) (snd b)) p ps) = insertBy c (snd p) (map snd ps)"
  by (induction ps) simp_all

lemma map_snd_sortBy:
  "map snd (sortBy (\<lambda>a b. c (snd a) (snd b)) ps) = sortBy c (map snd ps)"
  unfolding sortBy_def by (induction ps) (simp_all add: map_snd_insertBy)

lemma map_snd_filter_enumerate:
  "map snd (filter (\<lambda>(i, x). P x) (enumerate n xs)) = filter P xs"
  by (induction xs arbitrary: n) simp_all

lemma nonImportItems_plain:
  "map snd (nonImportItems sec) = filter (\<lambda>it. item_type it \<noteq> Import) (items sec)"
  by (simp add: nonImportItems_def map_snd_filter_enumerate)

lemma sortedNonImportItems_plain:
  "map snd (sortedNonImportItems lc sec) =
     (if sortItems (options sec)
      then sortBy (\<lambda>a b. lc (item_name a) (item_name b))
             (filter (\<lambda>it. item_type it \<noteq> Import) (items sec))
      else filter (\<lambda>it. item_type it \<noteq> Import) (items sec))"
proof -
  have "map snd (sortBy (\<lambda>a b. lc (item_name (snd a)) (item_name (snd b))) (nonImportItems sec))
      = sortBy (\<lambda>a b. lc (item_name a) (item_name b)) (map snd (nonImportItems sec))"
    by (rule map_snd_sortBy[of "\<lambda>a b. lc (item_name a) (item_name b)"])
  then show ?thesis
    by (simp add: sortedNonImportItems_def nonImportItems_plain)
qed

lemma set_sortedNonImportItems:
  "snd ` set (sortedNonImportItems lc sec) = {it \<in> set (items sec). item_type it \<noteq> Import}"
proof -
  have "snd ` set (sortedNonImportItems lc sec) = set (map snd (sortedNonImportItems lc sec))"
    by simp
  also have "\<dots> = {it \<in> set (items sec). item_type it \<noteq> Import}"
    unfolding sortedNonImportItems_plain by (auto simp: set_sortBy)
  finally show ?thesis .
qed

lemma scan_fold:
  "fold (\<lambda>(i, item) usageTracker. scanString (generatedCodeOf item) usageTracker) entries t
     = t\<lparr>usedIdentifiers := usedIdentifiers t
          \<union> (\<Union>e\<in>set entries. set (scanStringFound (generatedCodeOf (snd e))))\<rparr>"
proof (induction entries arbitrary: t)
  case Nil
  then show ?case by simp
next
  case (Cons e es)
  obtain i item where e: "e = (i, item)" by (cases e)
  let ?f = "\<lambda>(i, item) usageTracker. scanString (generatedCodeOf item) usageTracker"
  have "fold ?f (e # es) t = fold ?f es (scanString (generatedCodeOf item) t)"
    by (simp add: e)
  also have "\<dots> = (scanString (generatedCodeOf item) t)
      \<lparr>usedIdentifiers := usedIdentifiers (scanString (generatedCodeOf item) t)
         \<union> (\<Union>e\<in>set es. set (scanStringFound (generatedCodeOf (snd e))))\<rparr>"
    by (rule Cons.IH)
  also have "\<dots> = t\<lparr>usedIdentifiers := usedIdentifiers t
          \<union> (\<Union>e\<in>set (e # es). set (scanStringFound (generatedCodeOf (snd e))))\<rparr>"
    by (simp add: scanString_def e Un_assoc)
  finally show ?case .
qed

lemma scanItems_eq:
  "scanItems entries =
     \<lparr>usedIdentifiers = (\<Union>e\<in>set entries. set (scanStringFound (generatedCodeOf (snd e))))\<rparr>"
  by (simp add: scanItems_def scan_fold newTypeUsageTracker_def)

lemma Section_usageTracker_eq:
  "Section_usageTracker lc sec =
     \<lparr>usedIdentifiers = (\<Union>it\<in>{it \<in> set (items sec). item_type it \<noteq> Import}.
                            set (scanStringFound (generatedCodeOf it)))\<rparr>"
proof -
  have "(\<Union>e\<in>set (sortedNonImportItems lc sec). set (scanStringFound (generatedCodeOf (snd e))))
      = (\<Union>it\<in>snd ` set (sortedNonImportItems lc sec). set (scanStringFound (generatedCodeOf it)))"
    by simp
  then show ?thesis
    by (simp only: Section_usageTracker_def scanItems_eq set_sortedNonImportItems)
qed

text \<open>An import statement is never blank, an import with a used binding gives a statement,
  and a statement that is kept is part of the output.\<close>

lemma dropWhile_keeps: "x \<in> set xs \<Longrightarrow> \<not> P x \<Longrightarrow> x \<in> set (dropWhile P xs)"
  by (induction xs) auto

lemma trim_nonblank: "x \<in> set s \<Longrightarrow> \<not> isSpace x \<Longrightarrow> trim s \<noteq> []"
proof -
  assume a: "x \<in> set s" "\<not> isSpace x"
  then have "x \<in> set (rev (dropWhile isSpace s))" by (simp add: dropWhile_keeps)
  with a have "x \<in> set (dropWhile isSpace (rev (dropWhile isSpace s)))"
    by (rule_tac dropWhile_keeps)
  then have "0 < length (dropWhile isSpace (rev (dropWhile isSpace s)))"
    by (rule length_pos_if_in_set)
  then have "0 < length (trim s)" by (simp only: trim_def length_rev)
  then show ?thesis by simp
qed

lemma printImportDeclaration_nonblank: "trim (printImportDeclaration d) \<noteq> []"
proof -
  have "CHR ''i'' \<in> set (printImportDeclaration d)"
    by (cases d) (simp add: printImportDeclaration_def split: option.splits)
  moreover have "\<not> isSpace CHR ''i''" by (simp add: isSpace_def)
  ultimately show ?thesis by (rule trim_nonblank)
qed

lemma trim_Nil [simp]: "trim [] = []"
  by (simp add: trim_def)

lemma generateImports_blank_iff:
  "trim (generateImports b) \<noteq> [] \<longleftrightarrow> generateDeclaration b \<noteq> None"
  by (cases "generateDeclaration b") (simp_all add: generateImports_def printImportDeclaration_nonblank)

lemma used_binding_renders:
  assumes "(\<exists>i\<in>set (namedImports b). used i) \<or> (\<exists>d. defaultImport b = Some d \<and> bused d)
           \<or> (\<exists>d. namespaceImport b = Some d \<and> bused d)"
  shows "generateDeclaration b \<noteq> None"
proof -
  from assms have "filteredNamedImports b \<noteq> [] \<or> includeSingle b (defaultImport b)
      \<or> includeSingle b (namespaceImport b)"
    by (auto simp: filteredNamedImports_def includeSingle_def filter_empty_conv)
  then show ?thesis by (auto simp: generateDeclaration_included)
qed

lemma markSingle_marks:
  "imp = Some d \<Longrightarrow> bname d \<in> usedIdentifiers t \<Longrightarrow>
     markSingleFromTracker t imp = Some (d\<lparr>bused := True\<rparr>)"
  by (simp add: markSingleFromTracker_def isUsed_def)

lemma reconcile_marks:
  assumes "n \<in> usedIdentifiers t"
    and "(\<exists>i\<in>set (namedImports b). name i = n) \<or> (\<exists>d. defaultImport b = Some d \<and> bname d = n)
           \<or> (\<exists>d. namespaceImport b = Some d \<and> bname d = n)"
  shows "(\<exists>i\<in>set (namedImports (markUsedFromTracker t b)). used i)
     \<or> (\<exists>d. defaultImport (markUsedFromTracker t b) = Some d \<and> bused d)
     \<or> (\<exists>d. namespaceImport (markUsedFromTracker t b) = Some d \<and> bused d)"
proof -
  consider (named) i where "i \<in> set (namedImports b)" "name i = n"
    | (dflt) d where "defaultImport b = Some d" "bname d = n"
    | (ns) d where "namespaceImport b = Some d" "bname d = n"
    using assms(2) by blast
  then show ?thesis
  proof cases
    case named
    define f :: "NamedImportDefinition \<Rightarrow> NamedImportDefinition"
      where "f = (\<lambda>i. if name i \<in> usedIdentifiers t then i\<lparr>used := True\<rparr> else i)"
    from named(1) have "f i \<in> f ` set (namedImports b)" by (rule imageI)
    moreover have "set (namedImports (markUsedFromTracker t b)) = f ` set (namedImports b)"
      by (simp add: markUsedFromTracker_named f_def)
    moreover have "used (f i)" using named(2) assms(1) by (simp add: f_def)
    ultimately show ?thesis by blast
  next
    case dflt
    with assms(1) have "markSingleFromTracker t (defaultImport b) = Some (d\<lparr>bused := True\<rparr>)"
      by (simp add: markSingle_marks)
    then have "defaultImport (markUsedFromTracker t b) = Some (d\<lparr>bused := True\<rparr>)"
      by (simp add: markUsedFromTracker_def)
    then show ?thesis by simp
  next
    case ns
    with assms(1) have "markSingleFromTracker t (namespaceImport b) = Some (d\<lparr>bused := True\<rparr>)"
      by (simp add: markSingle_marks)
    then have "namespaceImport (markUsedFromTracker t b) = Some (d\<lparr>bused := True\<rparr>)"
      by (simp add: markUsedFromTracker_def)
    then show ?thesis by simp
  qed
qed

text \<open>What a declaration shows for a binding whose looked-up name the tracker holds.\<close>

lemma reconciled_default:
  assumes "defaultImport b = Some d" "bname d \<in> usedIdentifiers t" "bname d \<noteq> []"
  shows "renderedDefault (generateDeclaration (markUsedFromTracker t b)) = Some (bname d)"
proof -
  from assms(1,2) have "markSingleFromTracker t (defaultImport b) = Some (d\<lparr>bused := True\<rparr>)"
    by (simp add: markSingle_marks)
  then have "defaultImport (markUsedFromTracker t b) = Some (d\<lparr>bused := True\<rparr>)"
    by (simp add: markUsedFromTracker_def)
  with assms(3) show ?thesis
    by (simp add: renderedDefault_included includedName_def)
qed

lemma reconciled_namespace:
  assumes "namespaceImport b = Some d" "bname d \<in> usedIdentifiers t" "bname d \<noteq> []"
  shows "renderedNamespace (generateDeclaration (markUsedFromTracker t b)) = Some (bname d)"
proof -
  from assms(1,2) have "markSingleFromTracker t (namespaceImport b) = Some (d\<lparr>bused := True\<rparr>)"
    by (simp add: markSingle_marks)
  then have "namespaceImport (markUsedFromTracker t b) = Some (d\<lparr>bused := True\<rparr>)"
    by (simp add: markUsedFromTracker_def)
  with assms(3) show ?thesis
    by (simp add: renderedNamespace_included includedName_def)
qed

lemma reconciled_named:
  assumes "i \<in> set (namedImports b)" "name i \<in> usedIdentifiers t"
    and "renderedNamespace (generateDeclaration (markUsedFromTracker t b)) = None"
  shows "createImportSpecifier i
           \<in> set (renderedSpecifiers (generateDeclaration (markUsedFromTracker t b)))"
proof -
  define f :: "NamedImportDefinition \<Rightarrow> NamedImportDefinition"
    where "f = (\<lambda>i. if name i \<in> usedIdentifiers t then i\<lparr>used := True\<rparr> else i)"
  from assms(1) have "f i \<in> f ` set (namedImports b)" by (rule imageI)
  moreover have "set (namedImports (markUsedFromTracker t b)) = f ` set (namedImports b)"
    by (simp add: markUsedFromTracker_named f_def)
  moreover have fi: "f i = i\<lparr>used := True\<rparr>" using assms(2) by (simp add: f_def)
  ultimately have "i\<lparr>used := True\<rparr> \<in> set (namedImports (markUsedFromTracker t b))"
    by simp
  then have "i\<lparr>used := True\<rparr> \<in> set (filteredNamedImports (markUsedFromTracker t b))"
    by (simp add: filteredNamedImports_def)
  then have "createImportSpecifier (i\<lparr>used := True\<rparr>)
      \<in> createImportSpecifier ` set (filteredNamedImports (markUsedFromTracker t b))"
    by (rule imageI)
  moreover from assms(3)
  have "includedName (markUsedFromTracker t b) (namespaceImport (markUsedFromTracker t b)) = None"
    by (simp add: renderedNamespace_included)
  ultimately show ?thesis by (simp add: renderedSpecifiers_eq)
qed

lemma processed_import_kept:
  assumes "item \<in> set its" "item_type item = Import" "importsBuilder item = Some b"
    and "generateDeclaration (markUsedFromTracker t b) \<noteq> None"
  shows "generateImports (markUsedFromTracker t b) \<in> set (importStringsOf t its)"
proof -
  let ?g = "generateImports (markUsedFromTracker t b)"
  let ?p = "processImportItem t item"
  from assms(4) have nb: "trim ?g \<noteq> []" by (simp add: generateImports_blank_iff)
  with assms(3) have node: "node ?p = StringNode ?g"
    by (simp add: processImportItem_def Let_def)
  with nb have kept: "keptImport ?p" by (simp add: keptImport_def)
  from assms(1,2) have "?p \<in> set (map (processImportItem t) (filter (\<lambda>item. item_type item = Import) its))"
    by simp
  with kept have "?p \<in> set (filter keptImport (map (processImportItem t)
       (filter (\<lambda>item. item_type item = Import) its)))"
    by simp
  then have "set (case node ?p of StringNode s \<Rightarrow> [s] | AstNode n \<Rightarrow> [])
      \<subseteq> set (importStringsOf t its)"
    unfolding importStringsOf_def set_concat set_map by blast
  then show ?thesis by (simp add: node)
qed

lemma join_contains: "x \<in> set xs \<Longrightarrow> \<exists>p q. join sep xs = p @ x @ q"
proof (induction sep xs rule: join.induct)
  case (1 sep)
  then show ?case by simp
next
  case (2 sep y)
  then have "join sep [y] = [] @ x @ []" by simp
  then show ?case by blast
next
  case (3 sep y z zs)
  show ?case
  proof (cases "x = y")
    case True
    then have "join sep (y # z # zs) = [] @ x @ (sep @ join sep (z # zs))" by simp
    then show ?thesis by blast
  next
    case False
    with 3 obtain p q where "join sep (z # zs) = p @ x @ q" by auto
    then have "join sep (y # z # zs) = (y @ sep @ p) @ x @ q" by simp
    then show ?thesis by blast
  qed
qed

lemma renderStrings_contains:
  assumes "x \<in> set importStrings"
  shows "\<exists>p q. renderStrings nm opts importStrings stringNodes = p @ x @ q"
proof -
  from assms obtain p q where j: "join newline importStrings = p @ x @ q"
    using join_contains by blast
  from assms have ne: "importStrings \<noteq> []" by auto
  define h where "h = ''/**'' @ newline @ '' * '' @ nm @ newline
     @ concat (map (\<lambda>l. '' * '' @ l @ newline) (descriptionLines (description opts)))
     @ (case metadata opts of
          None \<Rightarrow> []
        | Some md \<Rightarrow>
            (if descriptionTruthy (description opts) then '' *'' @ newline else [])
            @ concat (metadataLines md))
     @ '' */'' @ newline"
  define t where "t = (if stringNodes \<noteq> [] then newline @ newline else [])
     @ (if stringNodes \<noteq> [] then join (newline @ newline) stringNodes else [])
     @ newline @ ''// End '' @ nm"
  have "renderStrings nm opts importStrings stringNodes = h @ join newline importStrings @ t"
    using ne by (simp add: renderStrings_def h_def t_def)
  with j have "renderStrings nm opts importStrings stringNodes = (h @ p) @ x @ (q @ t)" by simp
  then show ?thesis by blast
qed

lemma renderMixed_contains:
  assumes "x \<in> set importStrings"
  shows "\<exists>p q. renderMixed nm opts importStrings stringNodes astNodes = p @ x @ q"
proof -
  from assms obtain p q where j: "join newline importStrings = p @ x @ q"
    using join_contains by blast
  from assms have ne: "importStrings \<noteq> []" by auto
  have "\<exists>t. renderMixed nm opts importStrings stringNodes astNodes
      = join newline importStrings @ t"
    using ne by (simp add: renderMixed_def Let_def appendPart_def)
  then obtain t where "renderMixed nm opts importStrings stringNodes astNodes
      = join newline importStrings @ t" by blast
  with j have "renderMixed nm opts importStrings stringNodes astNodes = p @ x @ (q @ t)" by simp
  then show ?thesis by blast
qed

lemma Section_output_contains:
  assumes "x \<in> set (Section_importStrings lc sec)"
  shows "\<exists>p q. Section_output lc sec = p @ x @ q"
  using assms renderStrings_contains renderMixed_contains
  by (simp add: Section_output_def Let_def)

text \<open>The output depends on the entries only through the items, not through their
  indices.\<close>

lemma stringNodesOf_plain:
  "stringNodesOf es =
     concat (map (\<lambda>item. case node item of StringNode s \<Rightarrow> [s] | AstNode n \<Rightarrow> []) (map snd es))"
  by (simp add: stringNodesOf_def comp_def case_prod_unfold)

lemma astNodesOf_plain:
  "map snd (astNodesOf es) =
     concat (map (\<lambda>item. case node item of StringNode s \<Rightarrow> [] | AstNode n \<Rightarrow> [n]) (map snd es))"
  by (induction es) (auto simp: astNodesOf_def split: Node.splits)

lemma onlyStrings_plain:
  "onlyStrings imps strs asts = (map snd asts = [] \<and> (strs \<noteq> [] \<or> imps \<noteq> []))"
  by (simp add: onlyStrings_def)

lemma Section_output_cong:
  assumes "section_name s1 = section_name s2" "options s1 = options s2"
    and "map snd (sortedNonImportItems lc s1) = map snd (sortedNonImportItems lc s2)"
    and "Section_importStrings lc s1 = Section_importStrings lc s2"
  shows "Section_output lc s1 = Section_output lc s2"
proof -
  have s: "stringNodesOf (sortedNonImportItems lc s1) = stringNodesOf (sortedNonImportItems lc s2)"
    by (simp only: stringNodesOf_plain assms(3))
  have a: "map snd (astNodesOf (sortedNonImportItems lc s1))
         = map snd (astNodesOf (sortedNonImportItems lc s2))"
    by (simp only: astNodesOf_plain assms(3))
  show ?thesis
    unfolding Section_output_def Let_def onlyStrings_plain
    by (simp only: s a assms(1,2,4))
qed

lemma importStringsOf_drop:
  assumes "item_type item = Import" "importsBuilder item = Some b"
    and "generateImports (markUsedFromTracker t b) = []"
  shows "importStringsOf t (xs @ item # ys) = importStringsOf t (xs @ ys)"
proof -
  from assms(2,3) have "node (processImportItem t item) = StringNode []"
    by (simp add: processImportItem_def Let_def)
  then have "\<not> keptImport (processImportItem t item)"
    by (simp add: keptImport_def)
  with assms(1) show ?thesis
    by (simp add: importStringsOf_def)
qed

lemma noneUsed_blank:
  assumes "noneUsed b" "\<not> includeUnused b"
  shows "generateImports b = []"
proof -
  from assms have "filteredNamedImports b = []"
    by (simp add: noneUsed_def filteredNamedImports_def filter_empty_conv list_all_iff)
  moreover from assms have "\<not> includeSingle b (defaultImport b)"
    by (simp add: noneUsed_def includeSingle_def split: option.splits)
  moreover from assms have "\<not> includeSingle b (namespaceImport b)"
    by (simp add: noneUsed_def includeSingle_def split: option.splits)
  ultimately show ?thesis
    by (simp add: generateImports_def generateDeclaration_included)
qed

text \<open>
  C1, as the claim states it, fails in two ways, neither of which depends on the order of
  the items. The tracker is heuristic: a local name that appears in a non-import item in
  lower case, outside of string literals and after none of the five patterns, is not found,
  and the import is dropped; here the block of an if statement calls \<open>useState\<close>. And a named
  import whose name the scan does find is not imported when the same statement renders a
  namespace import, which replaces the named group; here \<open>Foo\<close> is found and the output
  imports only \<open>NS\<close>.
\<close>

theorem name_in_item_not_imported:
  \<open>sublist ''useState'' (generatedCodeOf ifItem)
   \<and> Section_importStrings sameRank missedSection = []
   \<and> fst (Section_generate sameRank missedSection)
       = ''/** Hooks */\<newline>if (ready) {\<newline>    useState(0);\<newline>}\<newline>\<newline>// End Hooks\<newline>''
   \<and> ''Foo'' \<in> usedIdentifiers (Section_usageTracker sameRank nsSection)
   \<and> Section_importStrings sameRank nsSection = [''import * as NS from "m";'']
   \<and> fst (Section_generate sameRank nsSection)
       = ''/**\<newline> * Lib\<newline> */\<newline>import * as NS from "m";\<newline>\<newline>const o: Foo = NS.make();\<newline>// End Lib''\<close>
  by code_simp

text \<open>
  C1, amended. The tracker that reconciles the imports of a section has scanned the text of
  all its non-import items, wherever they stand among the items. Consequently, when the scan
  finds in some non-import item the local name of a default, a namespace or an un-aliased
  named binding of an import of the section, the statement of that import is non-blank, is
  among the import strings and is part of the section's output, and it shows the binding: a
  found default name is the default name of the clause, a found namespace name is its
  namespace import, and a found named import is among its specifiers unless the statement
  renders a namespace import. The order in which the import and the item were added plays no
  part.
\<close>

theorem scan_precedes_reconciliation:
  assumes "imp \<in> set (items sec)" "item_type imp = Import" "importsBuilder imp = Some b"
    and "other \<in> set (items sec)" "item_type other \<noteq> Import"
    and "n \<in> set (scanStringFound (generatedCodeOf other))"
    and "(\<exists>i\<in>set (namedImports b). name i = n \<and> aliasName i = None)
         \<or> (\<exists>d. defaultImport b = Some d \<and> bname d = n)
         \<or> (\<exists>d. namespaceImport b = Some d \<and> bname d = n)"
  shows "usedIdentifiers (Section_usageTracker lc sec)
           = (\<Union>it\<in>{it \<in> set (items sec). item_type it \<noteq> Import}.
                 set (scanStringFound (generatedCodeOf it)))
    \<and> n \<in> usedIdentifiers (Section_usageTracker lc sec)
    \<and> trim (generateImports (markUsedFromTracker (Section_usageTracker lc sec) b)) \<noteq> []
    \<and> generateImports (markUsedFromTracker (Section_usageTracker lc sec) b)
         \<in> set (Section_importStrings lc sec)
    \<and> (\<exists>p q. Section_output lc sec
                = p @ generateImports (markUsedFromTracker (Section_usageTracker lc sec) b) @ q)
    \<and> ((\<exists>d. defaultImport b = Some d \<and> bname d = n) \<longrightarrow>
          renderedDefault (generateDeclaration (markUsedFromTracker (Section_usageTracker lc sec) b))
            = Some n)
    \<and> ((\<exists>d. namespaceImport b = Some d \<and> bname d = n) \<longrightarrow>
          renderedNamespace (generateDeclaration (markUsedFromTracker (Section_usageTracker lc sec) b))
            = Some n)
    \<and> ((\<exists>i\<in>set (namedImports b). name i = n \<and> aliasName i = None)
          \<and> renderedNamespace
                (generateDeclaration (markUsedFromTracker (Section_usageTracker lc sec) b)) = None \<longrightarrow>
          \<lparr>propertyName = None, localName = n\<rparr>
            \<in> set (renderedSpecifiers
                     (generateDeclaration (markUsedFromTracker (Section_usageTracker lc sec) b))))"
proof -
  let ?t = "Section_usageTracker lc sec"
  let ?D = "generateDeclaration (markUsedFromTracker ?t b)"
  have tr: "usedIdentifiers ?t = (\<Union>it\<in>{it \<in> set (items sec). item_type it \<noteq> Import}.
                 set (scanStringFound (generatedCodeOf it)))"
    by (simp add: Section_usageTracker_eq)
  from assms(4,5,6) have n: "n \<in> usedIdentifiers ?t"
    unfolding tr by blast
  from assms(6) scanStringFound_nonempty have nne: "n \<noteq> []" by metis
  from assms(7) have "(\<exists>i\<in>set (namedImports b). name i = n)
         \<or> (\<exists>d. defaultImport b = Some d \<and> bname d = n)
         \<or> (\<exists>d. namespaceImport b = Some d \<and> bname d = n)"
    by blast
  with n have decl: "?D \<noteq> None"
    by (intro used_binding_renders reconcile_marks)
  then have nb: "trim (generateImports (markUsedFromTracker ?t b)) \<noteq> []"
    by (simp add: generateImports_blank_iff)
  from assms(1,2,3) decl
  have mem: "generateImports (markUsedFromTracker ?t b) \<in> set (Section_importStrings lc sec)"
    unfolding Section_importStrings_def by (rule processed_import_kept)
  from mem have out: "\<exists>p q. Section_output lc sec = p @ generateImports (markUsedFromTracker ?t b) @ q"
    by (rule Section_output_contains)
  have dflt: "renderedDefault ?D = Some n" if "\<exists>d. defaultImport b = Some d \<and> bname d = n"
  proof -
    from that obtain d where "defaultImport b = Some d" "bname d = n" by blast
    with n nne reconciled_default[of b d ?t] show ?thesis by simp
  qed
  have ns: "renderedNamespace ?D = Some n" if "\<exists>d. namespaceImport b = Some d \<and> bname d = n"
  proof -
    from that obtain d where "namespaceImport b = Some d" "bname d = n" by blast
    with n nne reconciled_namespace[of b d ?t] show ?thesis by simp
  qed
  have nmd: "\<lparr>propertyName = None, localName = n\<rparr> \<in> set (renderedSpecifiers ?D)"
    if "\<exists>i\<in>set (namedImports b). name i = n \<and> aliasName i = None"
      and "renderedNamespace ?D = None"
  proof -
    from that(1) obtain i where i: "i \<in> set (namedImports b)" "name i = n" "aliasName i = None"
      by blast
    from i(1) n that(2) have "createImportSpecifier i \<in> set (renderedSpecifiers ?D)"
      by (intro reconciled_named) (simp_all add: i(2))
    moreover from i(2,3) have "createImportSpecifier i = \<lparr>propertyName = None, localName = n\<rparr>"
      by (simp add: createImportSpecifier_def truthy_def)
    ultimately show ?thesis by simp
  qed
  from tr n nb mem out dflt ns nmd show ?thesis by blast
qed

theorem scan_precedes_reconciliation_witness:
  \<open>\<lparr>propertyName = None, localName = ''useState''\<rparr>
      \<in> set (renderedSpecifiers (generateDeclaration
                (markUsedFromTracker (Section_usageTracker sameRank hooksSection) reactImports)))
   \<and> generateImports (markUsedFromTracker (Section_usageTracker sameRank hooksSection) reactImports)
       \<in> set (Section_importStrings sameRank hooksSection)
   \<and> Section_importStrings sameRank hooksSection
       = [''import { useState, useEffect } from "react";'']
   \<and> renderedNamespace (generateDeclaration
        (markUsedFromTracker (Section_usageTracker sameRank nsSection) nsImports)) = Some ''NS''
   \<and> renderedDefault (generateDeclaration
        (markUsedFromTracker (Section_usageTracker sameRank domSection) domImports)) = Some ''ReactDOM''
   \<and> Section_importStrings sameRank domSection = [''import ReactDOM from "react-dom";'']\<close>
proof -
  have i: "item_type (importItem m b) = Import" "importsBuilder (importItem m b) = Some b" for m b
    by (simp_all add: importItem_def)
  have h1: "importItem ''react'' reactImports \<in> set (items hooksSection)"
    and h4: "componentItem \<in> set (items hooksSection)"
    by (simp_all add: hooksSection_def)
  have h5: "item_type componentItem \<noteq> Import" by (simp add: componentItem_def)
  have h6: "''useState'' \<in> set (scanStringFound (generatedCodeOf componentItem))" by code_simp
  have h7n: "\<exists>i\<in>set (namedImports reactImports). name i = ''useState'' \<and> aliasName i = None"
    by (simp add: reactImports_def namedMultiple_def builder_defs)
  have hns: "renderedNamespace (generateDeclaration
        (markUsedFromTracker (Section_usageTracker sameRank hooksSection) reactImports)) = None"
    by code_simp
  have 8: \<open>Section_importStrings sameRank hooksSection
             = [''import { useState, useEffect } from "react";'']\<close>
    by code_simp
  note A = scan_precedes_reconciliation[OF h1 i h4 h5 h6 disjI1[OF h7n], of sameRank]
  have n1: "importItem ''m'' nsImports \<in> set (items nsSection)"
    and n4: "nsItem \<in> set (items nsSection)"
    by (simp_all add: nsSection_def)
  have n5: "item_type nsItem \<noteq> Import" by (simp add: nsItem_def)
  have n6: "''NS'' \<in> set (scanStringFound (generatedCodeOf nsItem))" by code_simp
  have n7: "\<exists>d. namespaceImport nsImports = Some d \<and> bname d = ''NS''"
    by (simp add: nsImports_def builder_defs)
  note B = scan_precedes_reconciliation[OF n1 i n4 n5 n6 disjI2[OF disjI2[OF n7]], of sameRank]
  have d1: "importItem ''react-dom'' domImports \<in> set (items domSection)"
    and d4: "domItem \<in> set (items domSection)"
    by (simp_all add: domSection_def)
  have d5: "item_type domItem \<noteq> Import" by (simp add: domItem_def)
  have d6: "''ReactDOM'' \<in> set (scanStringFound (generatedCodeOf domItem))" by code_simp
  have d7: "\<exists>d. defaultImport domImports = Some d \<and> bname d = ''ReactDOM''"
    by (simp add: domImports_def builder_defs)
  note C = scan_precedes_reconciliation[OF d1 i d4 d5 d6 disjI2[OF disjI1[OF d7]], of sameRank]
  have 9: \<open>Section_importStrings sameRank domSection = [''import ReactDOM from "react-dom";'']\<close>
    by code_simp
  from A h7n hns B n7 C d7 8 9 show ?thesis by blast
qed

text \<open>
  C8. A builder with no binding marked used and \<open>includeUnused\<close> false generates the empty
  text, by the early return and without an error. In a section, an import item whose builder
  is in that state when it is rendered, that is after the reconciliation, leaves no trace:
  the import strings and the whole output are those of the section without the item.
\<close>

theorem unused_import_contributes_nothing:
  "(noneUsed b \<and> \<not> includeUnused b \<longrightarrow> generateImports b = [])
   \<and> (items sec = xs @ item # ys \<and> item_type item = Import \<and> importsBuilder item = Some r
       \<and> noneUsed (markUsedFromTracker (Section_usageTracker lc sec) r) \<and> \<not> includeUnused r
      \<longrightarrow> Section_importStrings lc sec = Section_importStrings lc (sec\<lparr>items := xs @ ys\<rparr>)
        \<and> Section_output lc sec = Section_output lc (sec\<lparr>items := xs @ ys\<rparr>))"
proof -
  have A: "generateImports b = []" if "noneUsed b" "\<not> includeUnused b"
    using that by (rule noneUsed_blank)
  have B: "Section_importStrings lc sec = Section_importStrings lc (sec\<lparr>items := xs @ ys\<rparr>)
        \<and> Section_output lc sec = Section_output lc (sec\<lparr>items := xs @ ys\<rparr>)"
    if it: "items sec = xs @ item # ys" and ty: "item_type item = Import"
      and ib: "importsBuilder item = Some r"
      and nu: "noneUsed (markUsedFromTracker (Section_usageTracker lc sec) r)"
      and iu: "\<not> includeUnused r"
  proof -
    let ?sec' = "sec\<lparr>items := xs @ ys\<rparr>"
    from it ty have f: "filter (\<lambda>it. item_type it \<noteq> Import) (items sec)
        = filter (\<lambda>it. item_type it \<noteq> Import) (items ?sec')"
      by simp
    have srt: "map snd (sortedNonImportItems lc sec) = map snd (sortedNonImportItems lc ?sec')"
      unfolding sortedNonImportItems_plain f by simp
    from it ty have "{it \<in> set (items sec). item_type it \<noteq> Import}
        = {it \<in> set (items ?sec'). item_type it \<noteq> Import}"
      by auto
    then have tr: "Section_usageTracker lc sec = Section_usageTracker lc ?sec'"
      by (simp only: Section_usageTracker_eq)
    from nu iu have "generateImports (markUsedFromTracker (Section_usageTracker lc sec) r) = []"
      by (intro noneUsed_blank) simp_all
    with ty ib have "importStringsOf (Section_usageTracker lc sec) (xs @ item # ys)
        = importStringsOf (Section_usageTracker lc sec) (xs @ ys)"
      by (rule importStringsOf_drop)
    then have imps: "Section_importStrings lc sec = Section_importStrings lc ?sec'"
      by (simp add: Section_importStrings_def it tr[symmetric])
    have "Section_output lc sec = Section_output lc ?sec'"
      by (rule Section_output_cong) (simp_all add: srt imps)
    with imps show ?thesis by simp
  qed
  from A B show ?thesis by blast
qed

theorem unused_import_contributes_nothing_witness:
  \<open>generateImports unusedImports = []
   \<and> Section_importStrings sameRank unusedSection = Section_importStrings sameRank hooksSection
   \<and> Section_output sameRank unusedSection = Section_output sameRank hooksSection
   \<and> Section_importStrings sameRank unusedSection
       = [''import { useState, useEffect } from "react";'']\<close>
proof -
  have 1: "noneUsed unusedImports \<and> \<not> includeUnused unusedImports"
    by code_simp
  have 2: "items unusedSection
      = [importItem ''react'' reactImports] @ importItem ''unused-module'' unusedImports
          # [componentItem]"
    by (simp add: unusedSection_def)
  have 3: "item_type (importItem ''unused-module'' unusedImports) = Import"
    and 4: "importsBuilder (importItem ''unused-module'' unusedImports) = Some unusedImports"
    by (simp_all add: importItem_def)
  have 5: "noneUsed (markUsedFromTracker (Section_usageTracker sameRank unusedSection)
                       unusedImports)"
    by code_simp
  have 6: "unusedSection\<lparr>items := [importItem ''react'' reactImports] @ [componentItem]\<rparr>
      = hooksSection"
    by (simp add: unusedSection_def hooksSection_def)
  have 7: \<open>Section_importStrings sameRank unusedSection
             = [''import { useState, useEffect } from "react";'']\<close>
    by code_simp
  from unused_import_contributes_nothing[of unusedImports unusedSection
      "[importItem ''react'' reactImports]" "importItem ''unused-module'' unusedImports"
      "[componentItem]" unusedImports sameRank] 1 2 3 4 5 7
  show ?thesis unfolding 6 by blast
qed

section \<open>Properties of the generator\<close>

text \<open>Sorting by a key keeps two lists related element by element when related elements
  have the same key.\<close>

lemma insort_key_rel:
  assumes "list_all2 R xs ys" "R x y" "\<And>a b. R a b \<Longrightarrow> f a = f b"
  shows "list_all2 R (insort_key f x xs) (insort_key f y ys)"
  using assms(1)
proof (induction rule: list_all2_induct)
  case Nil
  with assms(2) show ?case by simp
next
  case (Cons a as b bs)
  from assms(2,3) have "f x = f y" by blast
  moreover from Cons(1) assms(3) have "f a = f b" by blast
  ultimately show ?case using Cons assms(2) by simp
qed

lemma sort_key_rel:
  assumes "list_all2 R xs ys" "\<And>a b. R a b \<Longrightarrow> f a = f b"
  shows "list_all2 R (sort_key f xs) (sort_key f ys)"
  using assms(1)
proof (induction rule: list_all2_induct)
  case Nil
  show ?case by simp
next
  case (Cons a as b bs)
  then show ?case by (simp add: insort_key_rel[OF _ _ assms(2)])
qed

text \<open>Where a second call of \<open>generate\<close> does give the same text: a section without
  structured items changes only its import items, and processing an import item twice
  changes nothing more.\<close>

lemma markSingleFromTracker_idem:
  "markSingleFromTracker t (markSingleFromTracker t imp) = markSingleFromTracker t imp"
  by (cases imp) (simp_all add: markSingleFromTracker_def)

lemma markUsedFromTracker_idem:
  "markUsedFromTracker t (markUsedFromTracker t b) = markUsedFromTracker t b"
proof -
  have "map (\<lambda>i. if isUsed t (name i) then i\<lparr>used := True\<rparr> else i)
          (map (\<lambda>i. if isUsed t (name i) then i\<lparr>used := True\<rparr> else i) (namedImports b))
      = map (\<lambda>i. if isUsed t (name i) then i\<lparr>used := True\<rparr> else i) (namedImports b)"
    by (induction "namedImports b" arbitrary: b) simp_all
  then show ?thesis
    by (simp add: markUsedFromTracker_def markSingleFromTracker_idem)
qed

lemma processImportItem_type [simp]:
  "item_type (processImportItem t item) = item_type item"
  by (simp add: processImportItem_def Let_def split: option.splits)

lemma processImportItem_idem:
  "processImportItem t (processImportItem t item) = processImportItem t item"
  by (cases "importsBuilder item")
     (simp_all add: processImportItem_def Let_def markUsedFromTracker_idem)

lemma map_enumerate_plain:
  "map (\<lambda>(i, x). f x) (enumerate n xs) = map f xs"
  by (induction xs arbitrary: n) simp_all

lemma filter_nonimport_processed:
  "filter (\<lambda>it. item_type it \<noteq> Import)
      (map (\<lambda>item. if item_type item = Import then processImportItem t item else item) xs)
     = filter (\<lambda>it. item_type it \<noteq> Import) xs"
  by (induction xs) simp_all

lemma filter_import_processed:
  "filter (\<lambda>it. item_type it = Import)
      (map (\<lambda>item. if item_type item = Import then processImportItem t item else item) xs)
     = map (processImportItem t) (filter (\<lambda>it. item_type it = Import) xs)"
  by (induction xs) simp_all

lemma string_sections_idempotent:
  assumes "astNodesOf (sortedNonImportItems lc sec) = []"
  shows "Section_output lc (snd (Section_generate lc sec)) = Section_output lc sec"
proof -
  let ?t = "Section_usageTracker lc sec"
  let ?f = "\<lambda>item. if item_type item = Import then processImportItem ?t item else item"
  let ?sec' = "sec\<lparr>items := map ?f (items sec)\<rparr>"
  have after: "Section_itemsAfter lc sec = map ?f (items sec)"
  proof -
    have "Section_itemsAfter lc sec = map (\<lambda>(i, item). ?f item) (enumerate 0 (items sec))"
      using assms by (simp add: Section_itemsAfter_def Let_def split_def)
    then show ?thesis by (simp only: map_enumerate_plain)
  qed
  have ty: "item_type (?f item) = item_type item" for item by simp
  have non: "filter (\<lambda>it. item_type it \<noteq> Import) (map ?f (items sec))
      = filter (\<lambda>it. item_type it \<noteq> Import) (items sec)"
    by (rule filter_nonimport_processed)
  have imp: "filter (\<lambda>it. item_type it = Import) (map ?f (items sec))
      = map (processImportItem ?t) (filter (\<lambda>it. item_type it = Import) (items sec))"
    by (rule filter_import_processed)
  have srt: "map snd (sortedNonImportItems lc ?sec') = map snd (sortedNonImportItems lc sec)"
    unfolding sortedNonImportItems_plain by (simp add: non)
  have "{it \<in> set (items ?sec'). item_type it \<noteq> Import}
      = {it \<in> set (items sec). item_type it \<noteq> Import}"
    using arg_cong[OF non, of set] by simp
  then have tr: "Section_usageTracker lc ?sec' = ?t"
    by (simp only: Section_usageTracker_eq)
  have imps: "Section_importStrings lc ?sec' = Section_importStrings lc sec"
    by (simp add: Section_importStrings_def tr importStringsOf_def imp processImportItem_idem comp_def)
  have "Section_output lc ?sec' = Section_output lc sec"
    by (rule Section_output_cong) (simp_all add: srt imps)
  then show ?thesis by (simp add: Section_generate_def after)
qed

lemma map_related:
  assumes "list_all2 R xs ys" "\<And>a b. R a b \<Longrightarrow> F b = F a"
  shows "map F ys = map F xs"
  using assms(1) by (induction rule: list_all2_induct) (simp_all add: assms(2))

lemma list_all2_map_self: "list_all2 (\<lambda>a b. a \<in> set xs \<and> b = f a) xs (map f xs)"
  by (simp add: list_all2_conv_all_nth)

lemma string_generators_idempotent:
  assumes "\<forall>sec\<in>set (sections g). astNodesOf (sortedNonImportItems lc sec) = []"
  shows "fst (Generator_generate printFile lc (snd (Generator_generate printFile lc g)))
           = fst (Generator_generate printFile lc g)"
proof -
  let ?after = "\<lambda>sec. snd (Section_generate lc sec)"
  let ?R = "\<lambda>a b. a \<in> set (sections g) \<and> b = ?after a"
  let ?g' = "snd (Generator_generate printFile lc g)"
  have secs: "sections ?g' = map ?after (sections g)"
    by (simp add: Generator_generate_def)
  have md: "globalMetadata ?g' = globalMetadata g"
    by (simp add: Generator_generate_def)
  have key: "orderKey a = orderKey b" if "?R a b" for a b
    using that by (simp add: orderKey_def Section_generate_def)
  have "list_all2 ?R (sections g) (sections ?g')"
    unfolding secs by (rule list_all2_map_self)
  then have "list_all2 ?R (sort_key orderKey (sections g)) (sort_key orderKey (sections ?g'))"
    using key by (rule sort_key_rel)
  then have rel: "list_all2 ?R (sortedSections g) (sortedSections ?g')"
    by (simp add: sortedSections_def)
  have out: "fst (Section_generate lc b) = fst (Section_generate lc a)" if "?R a b" for a b
  proof -
    from that assms have "astNodesOf (sortedNonImportItems lc a) = []" by blast
    then have "Section_output lc (snd (Section_generate lc a)) = Section_output lc a"
      by (rule string_sections_idempotent)
    with that show ?thesis by (simp add: Section_generate_def)
  qed
  have "map (\<lambda>sec. fst (Section_generate lc sec)) (sortedSections ?g')
      = map (\<lambda>sec. fst (Section_generate lc sec)) (sortedSections g)"
    using rel out by (rule map_related)
  then have "combinedCode lc ?g' = combinedCode lc g"
    by (simp add: combinedCode_def sectionCodes_def)
  then show ?thesis
    by (simp add: Generator_generate_def md[unfolded Generator_generate_def])
qed

text \<open>
  C3. A section with a structured item is not rendered the same way twice: each call of
  \<open>generate\<close> appends the section comment to the leading comments of the first structured
  item, which the section keeps, so the second call prints the comment twice. The combined
  code of the generator differs, and so does the file a printer makes of it that keeps the
  text it is given.
\<close>

theorem second_generate_repeats_section_comment:
  \<open>combinedCode sameRank enumGenerator
     = ''/** Enums */\<newline>enum Status {\<newline>    Active,\<newline>    Inactive\<newline>}\<newline>\<newline>// End Enums\<newline>''
   \<and> combinedCode sameRank (snd (Generator_generate printFileVerbatim sameRank enumGenerator))
     = ''/** Enums */\<newline>/** Enums */\<newline>enum Status {\<newline>    Active,\<newline>    Inactive\<newline>}\<newline>\<newline>// End Enums\<newline>''
   \<and> fst (Generator_generate printFileVerbatim sameRank enumGenerator)
     = ''/** Generated TypeScript code */\<newline>/** Enums */\<newline>enum Status {\<newline>    Active,\<newline>    Inactive\<newline>}\<newline>\<newline>// End Enums\<newline>''
   \<and> fst (Generator_generate printFileVerbatim sameRank
            (snd (Generator_generate printFileVerbatim sameRank enumGenerator)))
     = ''/** Generated TypeScript code */\<newline>/** Enums */\<newline>/** Enums */\<newline>enum Status {\<newline>    Active,\<newline>    Inactive\<newline>}\<newline>\<newline>// End Enums\<newline>''\<close>
  by code_simp

text \<open>
  C7. Every section is generated with a tracker of its own, which starts empty and scans
  the non-import items of that section only. So when two runs differ only in the items of a
  section \<open>b\<close>, the sorted sections agree position by position except where \<open>b\<close> stands, and at
  every other position the section, its rendered import lines and its whole code are the
  same in both runs.
\<close>

theorem no_cross_section_leakage:
  "usedIdentifiers (Section_usageTracker lc a)
     = (\<Union>it\<in>{it \<in> set (items a). item_type it \<noteq> Import}.
           set (scanStringFound (generatedCodeOf it)))
   \<and> list_all2 (\<lambda>s1 s2. s1 = s2 \<or> (s1 = b \<and> s2 = b\<lparr>items := content\<rparr>))
      (sortedSections \<lparr>sections = pre @ b # post, globalMetadata = md\<rparr>)
      (sortedSections \<lparr>sections = pre @ b\<lparr>items := content\<rparr> # post, globalMetadata = md\<rparr>)
   \<and> (\<forall>k < length (pre @ b # post).
         sortedSections \<lparr>sections = pre @ b # post, globalMetadata = md\<rparr> ! k \<noteq> b \<longrightarrow>
           sectionCodes lc \<lparr>sections = pre @ b\<lparr>items := content\<rparr> # post, globalMetadata = md\<rparr> ! k
             = sectionCodes lc \<lparr>sections = pre @ b # post, globalMetadata = md\<rparr> ! k
         \<and> Section_importStrings lc
             (sortedSections \<lparr>sections = pre @ b\<lparr>items := content\<rparr> # post, globalMetadata = md\<rparr> ! k)
             = Section_importStrings lc
                 (sortedSections \<lparr>sections = pre @ b # post, globalMetadata = md\<rparr> ! k))"
proof -
  let ?b' = "b\<lparr>items := content\<rparr>"
  let ?R = "\<lambda>s1 s2. s1 = s2 \<or> (s1 = b \<and> s2 = ?b')"
  let ?G = "\<lparr>sections = pre @ b # post, globalMetadata = md\<rparr>"
  let ?G' = "\<lparr>sections = pre @ ?b' # post, globalMetadata = md\<rparr>"
  have own: "usedIdentifiers (Section_usageTracker lc a)
     = (\<Union>it\<in>{it \<in> set (items a). item_type it \<noteq> Import}.
           set (scanStringFound (generatedCodeOf it)))"
    by (simp add: Section_usageTracker_eq)
  have key: "orderKey s = orderKey c" if "?R s c" for s c
    using that by (auto simp: orderKey_def)
  have "list_all2 ?R (pre @ b # post) (pre @ ?b' # post)"
    by (simp add: list_all2_appendI list_all2_refl)
  then have "list_all2 ?R (sort_key orderKey (pre @ b # post))
               (sort_key orderKey (pre @ ?b' # post))"
    using key by (rule sort_key_rel)
  then have rel: "list_all2 ?R (sortedSections ?G) (sortedSections ?G')"
    by (simp add: sortedSections_def)
  have len: "length (sortedSections ?G) = length (pre @ b # post)"
    by (simp add: sortedSections_def)
  have len': "length (sortedSections ?G') = length (pre @ b # post)"
    by (simp add: sortedSections_def)
  have pos: "sectionCodes lc ?G' ! k = sectionCodes lc ?G ! k
         \<and> Section_importStrings lc (sortedSections ?G' ! k)
             = Section_importStrings lc (sortedSections ?G ! k)"
    if k: "k < length (pre @ b # post)" and nb: "sortedSections ?G ! k \<noteq> b" for k
  proof -
    from k len have "k < length (sortedSections ?G)" by simp
    with rel have "?R (sortedSections ?G ! k) (sortedSections ?G' ! k)"
      by (rule list_all2_nthD)
    with nb have same: "sortedSections ?G' ! k = sortedSections ?G ! k" by auto
    from k len len' show ?thesis
      by (simp add: sectionCodes_def same)
  qed
  from own rel pos show ?thesis by blast
qed

theorem no_cross_section_leakage_witness:
  \<open>sectionCodes sameRank (twoSections [profileItem]) ! 0
     = sectionCodes sameRank (twoSections [labelItem]) ! 0
   \<and> Section_importStrings sameRank (sortedSections (twoSections [profileItem]) ! 0)
     = Section_importStrings sameRank (sortedSections (twoSections [labelItem]) ! 0)
   \<and> sortedSections (twoSections [profileItem]) = [sectionA, sectionB [profileItem]]
   \<and> Section_importStrings sameRank sectionA = []
   \<and> Section_importStrings sameRank (sectionB [profileItem])
     = [''import { User } from "./types";'']\<close>
proof -
  have g: "twoSections [labelItem]
      = \<lparr>sections = [sectionA] @ sectionB [labelItem] # [], globalMetadata = []\<rparr>"
    by (simp add: twoSections_def)
  have g': "twoSections [profileItem]
      = \<lparr>sections = [sectionA] @ (sectionB [labelItem])
            \<lparr>items := importItem ''./types'' userImports # [profileItem]\<rparr> # [],
         globalMetadata = []\<rparr>"
    by (simp add: twoSections_def sectionB_def)
  have s: "sortedSections (twoSections [labelItem]) = [sectionA, sectionB [labelItem]]"
    by (simp add: sortedSections_def twoSections_def orderKey_def sectionA_def sectionB_def
          plainOptions_def)
  have s': "sortedSections (twoSections [profileItem]) = [sectionA, sectionB [profileItem]]"
    by (simp add: sortedSections_def twoSections_def orderKey_def sectionA_def sectionB_def
          plainOptions_def)
  have ne: "sortedSections (twoSections [labelItem]) ! 0 \<noteq> sectionB [labelItem]"
    by (simp add: s sectionA_def sectionB_def)
  have k: "(0::nat) < length ([sectionA] @ sectionB [labelItem] # [])" by simp
  have a: "Section_importStrings sameRank sectionA = []" by code_simp
  have b: \<open>Section_importStrings sameRank (sectionB [profileItem])
             = [''import { User } from "./types";'']\<close>
    by code_simp
  note t = no_cross_section_leakage[of sameRank sectionA "sectionB [labelItem]"
      "importItem ''./types'' userImports # [profileItem]" "[sectionA]" "[]" "[]",
      folded g g', THEN conjunct2, THEN conjunct2, rule_format, OF k ne]
  from t s' a b show ?thesis by blast
qed

end
